theory Spec2Isabelle
  imports Complex_Main
begin

section \<open>Higuchi fractal dimension: the kernel of \<open>src/methods/fractal.py\<close>\<close>

text \<open>
  The embedding follows \<open>higuchi_fractal\<close> line by line. A float64 value is a finite real,
  an infinity or not-a-number. What numpy computes inside its own routines is not fixed by
  the source, so it enters as a parameter \<open>E\<close>: how the exact result of an arithmetic
  operation is rounded to float64 (\<open>fl64\<close>, which also decides when a result overflows),
  the ten values \<open>np.logspace\<close> returns, and the slope \<open>np.polyfit\<close> returns. Theorems hold
  for every \<open>E\<close>, under the hypotheses on \<open>E\<close> they state; examples use the instances
  defined at the end of the definitions.
\<close>

subsection \<open>float64 values and arithmetic\<close>

datatype npfloat = Finite real | PosInf | NegInf | NaN

record numpy =
  fl64 :: "real \<Rightarrow> npfloat"
  logspace :: "int \<Rightarrow> real list"
  polyfit_slope :: "real list \<Rightarrow> real list \<Rightarrow> npfloat"

fun np_isinf :: "npfloat \<Rightarrow> bool" where
  "np_isinf PosInf = True"
| "np_isinf NegInf = True"
| "np_isinf _ = False"

fun np_isnan :: "npfloat \<Rightarrow> bool" where
  "np_isnan NaN = True"
| "np_isnan _ = False"

fun float_of :: "npfloat \<Rightarrow> real" where
  \<comment> \<open>the real value of a finite float; read only where the value is finite\<close>
  "float_of (Finite r) = r"
| "float_of _ = 0"

definition rnd :: "numpy \<Rightarrow> real \<Rightarrow> npfloat" where
  \<comment> \<open>the float64 result of an operation whose exact result is \<open>x\<close>; zero is exact\<close>
  "rnd E x = (if x = 0 then Finite 0 else fl64 E x)"

fun fneg :: "npfloat \<Rightarrow> npfloat" where
  "fneg (Finite x) = Finite (- x)"
| "fneg PosInf = NegInf"
| "fneg NegInf = PosInf"
| "fneg NaN = NaN"

fun fabs :: "npfloat \<Rightarrow> npfloat" where
  "fabs (Finite x) = Finite \<bar>x\<bar>"
| "fabs NaN = NaN"
| "fabs _ = PosInf"

fun fadd :: "numpy \<Rightarrow> npfloat \<Rightarrow> npfloat \<Rightarrow> npfloat" where
  \<comment> \<open>IEEE addition; adding zero is exact\<close>
  "fadd E (Finite x) (Finite y) =
     (if x = 0 then Finite y else if y = 0 then Finite x else rnd E (x + y))"
| "fadd E NaN b = NaN"
| "fadd E a NaN = NaN"
| "fadd E PosInf NegInf = NaN"
| "fadd E NegInf PosInf = NaN"
| "fadd E PosInf b = PosInf"
| "fadd E a PosInf = PosInf"
| "fadd E NegInf b = NegInf"
| "fadd E a NegInf = NegInf"

definition fsub :: "numpy \<Rightarrow> npfloat \<Rightarrow> npfloat \<Rightarrow> npfloat" where
  "fsub E a b = fadd E a (fneg b)"

fun fsign :: "npfloat \<Rightarrow> int" where
  "fsign (Finite x) = (if 0 < x then 1 else if x < 0 then - 1 else 0)"
| "fsign PosInf = 1"
| "fsign NegInf = - 1"
| "fsign NaN = 0"

fun fmul :: "numpy \<Rightarrow> npfloat \<Rightarrow> npfloat \<Rightarrow> npfloat" where
  \<comment> \<open>IEEE multiplication: an infinity times zero is not a number\<close>
  "fmul E (Finite x) (Finite y) = rnd E (x * y)"
| "fmul E NaN b = NaN"
| "fmul E a NaN = NaN"
| "fmul E a b =
     (if fsign a * fsign b = 0 then NaN else if 0 < fsign a * fsign b then PosInf else NegInf)"

fun fdiv :: "numpy \<Rightarrow> npfloat \<Rightarrow> npfloat \<Rightarrow> npfloat" where
  \<comment> \<open>IEEE division; the divisors of the source are positive integers, so the sign of
      a zero divisor plays no role and a zero divisor is taken as \<open>+0\<close>\<close>
  "fdiv E (Finite x) (Finite y) =
     (if y = 0 then (if x = 0 then NaN else if 0 < x then PosInf else NegInf)
      else rnd E (x / y))"
| "fdiv E NaN b = NaN"
| "fdiv E a NaN = NaN"
| "fdiv E (Finite x) b = Finite 0"
| "fdiv E PosInf (Finite y) = (if 0 \<le> y then PosInf else NegInf)"
| "fdiv E NegInf (Finite y) = (if 0 \<le> y then NegInf else PosInf)"
| "fdiv E a b = NaN"

fun flog :: "numpy \<Rightarrow> npfloat \<Rightarrow> npfloat" where
  \<comment> \<open>\<open>np.log\<close>: minus infinity at zero, not-a-number below it\<close>
  "flog E (Finite x) = (if 0 < x then rnd E (ln x) else if x = 0 then NegInf else NaN)"
| "flog E PosInf = PosInf"
| "flog E NegInf = NaN"
| "flog E NaN = NaN"

definition eps :: "numpy \<Rightarrow> npfloat" where
  \<comment> \<open>the literal \<open>1e-12\<close>: the float64 nearest to it\<close>
  "eps E = fl64 E (1 / 10 ^ 12)"

subsection \<open>Array primitives of numpy used by the kernel\<close>

definition arange :: "nat \<Rightarrow> nat \<Rightarrow> nat \<Rightarrow> nat list" where
  \<comment> \<open>\<open>np.arange(m, n, k)\<close> for a step \<open>k \<ge> 1\<close>: \<open>m, m + k, m + 2k, ...\<close> below \<open>n\<close>.
      The source only calls it inside \<open>for m in range(k)\<close>, so the step is never 0.\<close>
  "arange m n k = map (\<lambda>j. m + j * k) [0..<(n - m + k - 1) div k]"

fun np_diff :: "numpy \<Rightarrow> npfloat list \<Rightarrow> npfloat list" where
  "np_diff E (a # b # xs) = fsub E b a # np_diff E (b # xs)"
| "np_diff E _ = []"

fun np_sum :: "numpy \<Rightarrow> npfloat list \<Rightarrow> npfloat" where
  \<comment> \<open>\<open>a.sum()\<close>, adding from left to right. numpy adds longer arrays in another order
      (pairwise, in blocks): the results agree wherever every partial sum is exact or
      overflows in either order, and differ by rounding otherwise.\<close>
  "np_sum E [] = Finite 0"
| "np_sum E (x # xs) = foldl (fadd E) x xs"

definition np_mean :: "numpy \<Rightarrow> npfloat list \<Rightarrow> npfloat" where
  \<comment> \<open>\<open>a.mean()\<close>: the sum divided by the number of elements\<close>
  "np_mean E xs = fdiv E (np_sum E xs) (Finite (real (length xs)))"

definition mask_select :: "bool list \<Rightarrow> 'a list \<Rightarrow> 'a list" where
  \<comment> \<open>boolean-mask indexing \<open>a[valid]\<close>\<close>
  "mask_select valid xs = map snd (filter fst (zip valid xs))"

definition np_astype_int :: "real \<Rightarrow> int" where
  \<comment> \<open>the cast of \<open>dtype=int\<close>: truncation towards zero\<close>
  "np_astype_int x = (if 0 \<le> x then \<lfloor>x\<rfloor> else \<lceil>x\<rceil>)"

definition np_unique :: "int list \<Rightarrow> int list" where
  \<comment> \<open>\<open>np.unique\<close>: the sorted values, each once\<close>
  "np_unique xs = remdups_adj (sort xs)"

subsection \<open>The scale selector (lines 114 to 119)\<close>

definition scale_set :: "numpy \<Rightarrow> int \<Rightarrow> int list" where
  \<comment> \<open>\<open>logspace E max_k\<close> is the float64 array
      \<open>np.logspace(0, np.log10(max_k), num=10)\<close> before the cast to int\<close>
  "scale_set E max_k =
     filter (\<lambda>k. 1 \<le> k) (np_unique (map np_astype_int (logspace E max_k)))"

subsection \<open>The curve-length estimator (lines 124 to 139)\<close>

definition L_mk :: "numpy \<Rightarrow> npfloat list \<Rightarrow> nat \<Rightarrow> nat \<Rightarrow> nat \<Rightarrow> npfloat" where
  \<comment> \<open>lines 130 to 132, run only when \<open>idx.size >= 2\<close>: then \<open>d.size >= 1\<close> and, with
      \<open>k >= 1\<close>, the divisor is positive\<close>
  "L_mk E sig n_time k m =
     (let idx = arange m n_time k;
          seg = map (\<lambda>i. sig ! i) idx;
          d = map fabs (np_diff E seg)
      in fdiv E (fmul E (np_sum E d) (Finite (real n_time - 1)))
                (Finite (real (length d) * real k)))"

definition offset_step ::
  "numpy \<Rightarrow> npfloat list \<Rightarrow> nat \<Rightarrow> nat \<Rightarrow> npfloat \<times> nat \<Rightarrow> nat \<Rightarrow> npfloat \<times> nat" where
  \<comment> \<open>one iteration of \<open>for m in range(k)\<close> on the pair \<open>(sum_l, count)\<close>\<close>
  "offset_step E sig n_time k acc m =
     (if 2 \<le> length (arange m n_time k)
      then (fadd E (fst acc) (L_mk E sig n_time k m), snd acc + 1)
      else acc)"

definition offsets_loop :: "numpy \<Rightarrow> npfloat list \<Rightarrow> nat \<Rightarrow> nat \<Rightarrow> npfloat \<times> nat" where
  "offsets_loop E sig n_time k = foldl (offset_step E sig n_time k) (Finite 0, 0) [0..<k]"

definition Lk :: "numpy \<Rightarrow> npfloat list \<Rightarrow> nat \<Rightarrow> int \<Rightarrow> npfloat" where
  \<comment> \<open>the local \<open>Lk = sum_l / count\<close> of the branch \<open>count != 0\<close>\<close>
  "Lk E sig n_time k =
     (case offsets_loop E sig n_time (nat k) of
        (sum_l, count) \<Rightarrow> fdiv E sum_l (Finite (real count)))"

definition lk_entry :: "numpy \<Rightarrow> npfloat list \<Rightarrow> nat \<Rightarrow> int \<Rightarrow> npfloat" where
  \<comment> \<open>the value stored in \<open>lk[si]\<close>\<close>
  "lk_entry E sig n_time k =
     (if snd (offsets_loop E sig n_time (nat k)) = 0 then Finite 0
      else flog E (fadd E (Lk E sig n_time k) (eps E)))"

subsection \<open>The regression and the per-signal value (lines 121 to 146)\<close>

definition center :: "numpy \<Rightarrow> npfloat list \<Rightarrow> npfloat list" where
  \<comment> \<open>\<open>sig - sig.mean()\<close>\<close>
  "center E sig = map (\<lambda>v. fsub E v (np_mean E sig)) sig"

definition abscissa :: "numpy \<Rightarrow> int \<Rightarrow> real" where
  \<comment> \<open>\<open>np.log(1.0 / k)\<close> for a scale \<open>k\<close>; the scales are at least 1 (line 119), so
      numpy's value is finite\<close>
  "abscissa E k = float_of (flog E (fdiv E (Finite 1) (Finite (real_of_int k))))"

definition hfd_signal :: "numpy \<Rightarrow> int list \<Rightarrow> nat \<Rightarrow> npfloat list \<Rightarrow> npfloat" where
  \<comment> \<open>the body of \<open>for i, sig in enumerate(X_flat)\<close>; the entries of \<open>lk[valid]\<close> are
      finite by the mask\<close>
  "hfd_signal E scales n_time sig0 =
     (let sig = center E sig0;
          lk = map (lk_entry E sig n_time) scales;
          valid = map (\<lambda>v. \<not> np_isinf v \<and> \<not> np_isnan v) lk
      in if length (filter id valid) < 2 then Finite 0
         else polyfit_slope E (map (abscissa E) (mask_select valid scales))
                (map float_of (mask_select valid lk)))"

definition hfd_vals :: "numpy \<Rightarrow> int \<Rightarrow> nat \<Rightarrow> npfloat list list \<Rightarrow> npfloat list" where
  \<comment> \<open>lines 110 to 146: \<open>kmax\<close> is the clamped parameter, \<open>X_flat\<close> the rows of the
      reshaped tensor\<close>
  "hfd_vals E kmax n_time X_flat =
     (if n_time < 10 then replicate (length X_flat) (Finite 0)
      else let max_k = min kmax (int (n_time div 2))
           in if max_k < 2 then replicate (length X_flat) (Finite 0)
              else let scales = scale_set E max_k
                   in map (hfd_signal E scales n_time) X_flat)"

subsection \<open>The transform \<open>higuchi_fractal\<close> (lines 82 to 152)\<close>

text \<open>
  Python values as far as the checks of the transform tell them apart. An array is its
  shape and its elements in row-major order; \<open>NdArray\<close> is an array of floats,
  \<open>NdArrayStr\<close> an array of strings, which is an \<open>np.ndarray\<close> as well.
  \<open>isinstance(kmax, int)\<close> holds for an \<open>int\<close> and for a \<open>bool\<close> (a subclass of \<open>int\<close>, with
  \<open>True = 1\<close> and \<open>False = 0\<close>), and fails for a float and for a numpy integer such as
  \<open>np.int64(5)\<close>.
\<close>

datatype pyval =
    PyNone
  | PyBool bool
  | PyInt int
  | NpInt64 int
  | PyFloat real
  | PyStr string
  | PyList "pyval list"
  | NdArray "nat list" "npfloat list"
  | NdArrayStr "nat list" "string list"
  | PyDict "(string \<times> pyval) list"

text \<open>
  The exceptions of a call. The first five are the \<open>raise\<close> statements of the source, in
  its order: \<open>ValueError\<close> (line 83, the payload is not a dict), \<open>KeyError\<close> (line 85, no key
  \<open>X\<close>), \<open>ValueError\<close> (line 87, \<open>kmax\<close> is not an int), \<open>ValueError\<close> (line 98, \<open>X\<close> is not
  an array) and \<open>ValueError\<close> (line 103, unsupported shape, which the message quotes). The
  last is numpy's own \<open>TypeError\<close>, which \<open>sig.mean()\<close> on line 122 raises on an array of
  strings.
\<close>

datatype error =
    ValueError_not_a_dict
  | KeyError_X
  | ValueError_kmax_not_int
  | ValueError_not_ndarray
  | ValueError_unsupported_shape "nat list"
  | TypeError_numpy_mean

fun dict_update :: "string \<Rightarrow> pyval \<Rightarrow> (string \<times> pyval) list \<Rightarrow> (string \<times> pyval) list" where
  \<comment> \<open>\<open>d[key] = v\<close>: an existing key keeps its place\<close>
  "dict_update key v [] = [(key, v)]"
| "dict_update key v ((k, w) # d) =
     (if k = key then (k, v) # d else (k, w) # dict_update key v d)"

fun as_int :: "pyval \<Rightarrow> int option" where
  \<comment> \<open>\<open>isinstance(v, int)\<close>, with the integer value\<close>
  "as_int (PyInt i) = Some i"
| "as_int (PyBool b) = Some (if b then 1 else 0)"
| "as_int _ = None"

definition effective_flating :: "bool \<Rightarrow> (string \<rightharpoonup> bool) \<Rightarrow> bool" where
  \<comment> \<open>lines 91 to 94; the switches are booleans, as documented\<close>
  "effective_flating flating kwargs =
     (let f1 = (case kwargs ''flattening'' of Some b \<Rightarrow> flating \<or> b | None \<Rightarrow> flating)
      in (case kwargs ''flating'' of Some b \<Rightarrow> f1 \<or> b | None \<Rightarrow> f1))"

definition X_flat_rows :: "nat \<Rightarrow> nat \<Rightarrow> 'a list \<Rightarrow> 'a list list" where
  \<comment> \<open>\<open>X.reshape(rows, time)\<close>, as the list of its rows\<close>
  "X_flat_rows rows time xs = map (\<lambda>i. take time (drop (i * time) xs)) [0..<rows]"

definition normalize_shape :: "nat list \<Rightarrow> error + nat \<times> nat \<times> nat \<times> nat" where
  \<comment> \<open>lines 100 to 107: a rank-3 shape gets a band axis of length 1\<close>
  "normalize_shape shp =
     (case shp of
        [t, e, n] \<Rightarrow> Inr (t, 1, e, n)
      | [t, b, e, n] \<Rightarrow> Inr (t, b, e, n)
      | _ \<Rightarrow> Inl (ValueError_unsupported_shape shp))"

definition hfd_vals_str :: "int \<Rightarrow> nat \<Rightarrow> nat \<Rightarrow> error + npfloat list" where
  \<comment> \<open>lines 110 to 146 on an array of strings with the given number of rows: the two
      zero branches do not read the elements; otherwise the first \<open>sig.mean()\<close> raises,
      unless there is no row to loop over\<close>
  "hfd_vals_str kmax n_time rows =
     (if n_time < 10 then Inr (replicate rows (Finite 0))
      else let max_k = min kmax (int (n_time div 2))
           in if max_k < 2 then Inr (replicate rows (Finite 0))
              else if rows = 0 then Inr [] else Inl TypeError_numpy_mean)"

definition store_result ::
  "bool \<Rightarrow> nat \<Rightarrow> nat \<Rightarrow> nat \<Rightarrow> npfloat list \<Rightarrow> (string \<times> pyval) list \<Rightarrow> pyval" where
  \<comment> \<open>lines 148 to 152\<close>
  "store_result flat trials bands electrodes vals d =
     PyDict (dict_update ''X''
       (if flat then NdArray [trials, bands * electrodes] vals
        else NdArray [trials, bands, electrodes] vals) d)"

definition higuchi_fractal ::
  "numpy \<Rightarrow> pyval \<Rightarrow> pyval \<Rightarrow> bool \<Rightarrow> (string \<rightharpoonup> bool) \<Rightarrow> error + pyval" where
  "higuchi_fractal E eegdata kmax flating kwargs =
     (case eegdata of
        PyDict d \<Rightarrow>
          (case map_of d ''X'' of
             None \<Rightarrow> Inl KeyError_X
           | Some X \<Rightarrow>
               (case as_int kmax of
                  None \<Rightarrow> Inl ValueError_kmax_not_int
                | Some kmax0 \<Rightarrow>
                    (let kmax1 = (if kmax0 < 2 then 2 else kmax0);
                         flat = effective_flating flating kwargs
                     in (case X of
                           NdArray shp xs \<Rightarrow>
                             (case normalize_shape shp of
                                Inl err \<Rightarrow> Inl err
                              | Inr (trials, bands, electrodes, time) \<Rightarrow>
                                  (let X_flat = X_flat_rows (trials * bands * electrodes) time xs;
                                       vals = hfd_vals E kmax1 time X_flat
                                   in Inr (store_result flat trials bands electrodes vals d)))
                         | NdArrayStr shp ss \<Rightarrow>
                             (case normalize_shape shp of
                                Inl err \<Rightarrow> Inl err
                              | Inr (trials, bands, electrodes, time) \<Rightarrow>
                                  (case hfd_vals_str kmax1 time (trials * bands * electrodes) of
                                     Inl err \<Rightarrow> Inl err
                                   | Inr vals \<Rightarrow>
                                       Inr (store_result flat trials bands electrodes vals d)))
                         | _ \<Rightarrow> Inl ValueError_not_ndarray))))
      | _ \<Rightarrow> Inl ValueError_not_a_dict)"

text \<open>An array is well formed when it has as many elements as its shape says.\<close>

definition wf_ndarray :: "nat list \<Rightarrow> 'a list \<Rightarrow> bool" where
  "wf_ndarray shp xs = (length xs = prod_list shp)"

fun nd_index :: "nat list \<Rightarrow> nat list \<Rightarrow> nat" where
  \<comment> \<open>the row-major position of a multi-index in an array of the given shape\<close>
  "nd_index [] [] = 0"
| "nd_index (n # shp) (i # idx) = i * prod_list shp + nd_index shp idx"
| "nd_index _ _ = 0"

text \<open>What a call returns under the key \<open>X\<close>: the shape and the elements of the array.\<close>

fun result_X :: "error + pyval \<Rightarrow> (nat list \<times> npfloat list) option" where
  "result_X (Inr (PyDict d)) =
     (case map_of d ''X'' of Some (NdArray shp xs) \<Rightarrow> Some (shp, xs) | _ \<Rightarrow> None)"
| "result_X _ = None"

subsection \<open>Hypotheses on numpy's routines, and instances\<close>

text \<open>
  \<open>np.polyfit(x, y, 1)\<close> promises the least-squares line. Its exact form, from the normal
  equations, is \<open>polyfit1\<close>; lemma \<open>polyfit1_least_squares\<close> shows that it is the unique
  minimiser of the squared error as soon as two abscissae differ.
\<close>

definition polyfit1 :: "real list \<Rightarrow> real list \<Rightarrow> real \<times> real" where
  "polyfit1 xs ys =
     (let ps = zip xs ys;
          n = real (length ps);
          sx = (\<Sum>p\<leftarrow>ps. fst p);
          sy = (\<Sum>p\<leftarrow>ps. snd p);
          sxx = (\<Sum>p\<leftarrow>ps. fst p * fst p);
          sxy = (\<Sum>p\<leftarrow>ps. fst p * snd p);
          slope = (n * sxy - sx * sy) / (n * sxx - sx * sx)
      in (slope, (sy - slope * sx) / n))"

definition sq_error :: "(real \<times> real) list \<Rightarrow> real \<Rightarrow> real \<Rightarrow> real" where
  \<comment> \<open>the squared error of the line \<open>y = a * x + b\<close> on a list of pairs\<close>
  "sq_error ps a b = (\<Sum>p\<leftarrow>ps. (snd p - (a * fst p + b)) ^ 2)"

definition is_ols_line :: "(real \<times> real) list \<Rightarrow> real \<Rightarrow> real \<Rightarrow> bool" where
  \<comment> \<open>an ordinary least-squares fit: no line has a smaller squared error\<close>
  "is_ols_line ps slope intercept =
     (\<forall>a b. sq_error ps slope intercept \<le> sq_error ps a b)"

definition polyfit_is_ols :: "numpy \<Rightarrow> bool" where
  \<comment> \<open>\<open>np.polyfit\<close> keeps its promise: on pairs with two different abscissae its slope is
      that of a least-squares line\<close>
  "polyfit_is_ols E =
     (\<forall>ps. (\<exists>p\<in>set ps. \<exists>q\<in>set ps. fst p \<noteq> fst q) \<longrightarrow>
        (\<exists>h c. polyfit_slope E (map fst ps) (map snd ps) = Finite h \<and> is_ols_line ps h c))"

definition logspace_ok :: "numpy \<Rightarrow> int \<Rightarrow> bool" where
  \<comment> \<open>\<open>np.logspace(0, np.log10(max_k), num=10)\<close> has ten values, and its rounding error
      keeps them below \<open>max_k + 1\<close> (their exact values are at most \<open>max_k\<close>)\<close>
  "logspace_ok E max_k =
     (length (logspace E max_k) = 10 \<and>
      (\<forall>p\<in>set (logspace E max_k). p < real_of_int max_k + 1))"

definition no_overflow :: "numpy \<Rightarrow> bool" where
  \<comment> \<open>arithmetic in which no result overflows or underflows: every rounded result is
      finite and has the sign of the exact one\<close>
  "no_overflow E =
     (\<forall>x. \<exists>y. fl64 E x = Finite y \<and> (0 \<le> x \<longrightarrow> 0 \<le> y) \<and> (0 < x \<longrightarrow> 0 < y))"

text \<open>
  Instances. \<open>logspace_float64\<close> gives, for \<open>max_k = 5\<close> and \<open>max_k = 8\<close>, the float64 values
  of \<open>10 ** (i * (log10(max_k) / 9))\<close>, \<open>i = 0..8\<close>, and of \<open>10 ** log10(max_k)\<close>, in their
  shortest decimal form, and the exact powers for other arguments. The largest float64
  is \<open>max_float64\<close>. \<open>fl_range\<close> rounds nothing and overflows beyond it; \<open>fl_coarse\<close> rounds
  results of magnitude from \<open>2^60\<close> to the float64 grid there (multiples of \<open>2^8\<close> below
  \<open>2^61\<close>, \<open>2^9\<close> below \<open>2^62\<close>, \<open>2^10\<close> below \<open>2^63\<close>, \<open>2^11\<close> below \<open>2^64\<close>) and keeps smaller
  results exact.
\<close>

definition logspace_float64 :: "int \<Rightarrow> real list" where
  "logspace_float64 max_k =
     (if max_k = 5 then
        [1, 1195813174500402 / 10 ^ 15, 14299691483087287 / 10 ^ 16,
         1709975946676697 / 10 ^ 15, 20448117651147912 / 10 ^ 16,
         24452128480976887 / 10 ^ 16, 2924017738212866 / 10 ^ 15,
         3496578933827813 / 10 ^ 15, 41812551547518675 / 10 ^ 16,
         5000000000000001 / 10 ^ 15]
      else if max_k = 8 then
        [1, 12599210498948732 / 10 ^ 16, 15874010519681994 / 10 ^ 16, 2,
         25198420997897464 / 10 ^ 16, 3174802103936399 / 10 ^ 15, 4,
         5039684199579493 / 10 ^ 15, 63496042078727974 / 10 ^ 16,
         7999999999999999 / 10 ^ 15]
      else map (\<lambda>i. 10 powr (real i * (log 10 (real_of_int max_k) / 9))) [0..<10])"

definition polyfit_exact :: "real list \<Rightarrow> real list \<Rightarrow> npfloat" where
  "polyfit_exact xs ys = Finite (fst (polyfit1 xs ys))"

definition max_float64 :: real where
  "max_float64 = (2 ^ 53 - 1) * 2 ^ 971"

definition fl_range :: "real \<Rightarrow> npfloat" where
  "fl_range x =
     (if \<bar>x\<bar> \<le> max_float64 then Finite x else if 0 < x then PosInf else NegInf)"

definition fl_coarse :: "real \<Rightarrow> npfloat" where
  "fl_coarse x =
     (let u = (if \<bar>x\<bar> < 2 ^ 60 then 0
               else if \<bar>x\<bar> < 2 ^ 61 then 2 ^ 8
               else if \<bar>x\<bar> < 2 ^ 62 then 2 ^ 9
               else if \<bar>x\<bar> < 2 ^ 63 then 2 ^ 10 else (2 ^ 11 :: real))
      in if u = 0 then Finite x else Finite (u * real_of_int (round (x / u))))"


definition E_range :: numpy where
  \<comment> \<open>exact arithmetic that overflows beyond the largest float64\<close>
  "E_range = \<lparr>fl64 = fl_range, logspace = logspace_float64, polyfit_slope = polyfit_exact\<rparr>"

definition E_coarse :: numpy where
  \<comment> \<open>arithmetic that rounds large results as float64 does\<close>
  "E_coarse = \<lparr>fl64 = fl_coarse, logspace = logspace_float64, polyfit_slope = polyfit_exact\<rparr>"

definition E_fit_error :: numpy where
  \<comment> \<open>a least-squares routine whose slope carries an error of \<open>-4.42e-15\<close>\<close>
  "E_fit_error =
     \<lparr>fl64 = fl_range, logspace = logspace_float64,
      polyfit_slope = (\<lambda>xs ys. Finite (fst (polyfit1 xs ys) - 442 / 10 ^ 17))\<rparr>"

subsection \<open>The specification's wording of the estimator and of the regression pairs\<close>

text \<open>
  The next definitions follow the words of the specification, not the code: the
  subsequence \<open>sig[m], sig[m+k], sig[m+2k], ...\<close>, the normalised length \<open>L(m,k)\<close> of one
  offset, the offsets that qualify (a subsequence of at least 2 samples), their
  arithmetic mean \<open>Lk\<close>, taken to be 0 when no offset qualifies, and the regression pairs
  \<open>(log(1/k), log(Lk + 1e-12))\<close> over the scales, without those whose ordinate is infinite
  or not a number. The arithmetic is that of the code.
\<close>

definition spec_subsequence :: "npfloat list \<Rightarrow> nat \<Rightarrow> nat \<Rightarrow> npfloat list" where
  "spec_subsequence sig m k =
     map (\<lambda>i. sig ! i) (filter (\<lambda>i. k dvd (i - m)) [m..<length sig])"

definition spec_L :: "numpy \<Rightarrow> npfloat list \<Rightarrow> nat \<Rightarrow> nat \<Rightarrow> npfloat" where
  "spec_L E sig k m =
     (let s = spec_subsequence sig m k
      in fdiv E
           (fmul E (np_sum E (map (\<lambda>i. fabs (fsub E (s ! (i + 1)) (s ! i))) [0..<length s - 1]))
                   (Finite (real (length sig) - 1)))
           (Finite (real (length s - 1) * real k)))"

definition spec_qualifying :: "npfloat list \<Rightarrow> nat \<Rightarrow> nat list" where
  "spec_qualifying sig k =
     filter (\<lambda>m. 2 \<le> length (spec_subsequence sig m k)) [0..<k]"

definition spec_Lk :: "numpy \<Rightarrow> npfloat list \<Rightarrow> nat \<Rightarrow> npfloat" where
  "spec_Lk E sig k =
     (let q = spec_qualifying sig k
      in if q = [] then Finite 0
         else fdiv E (np_sum E (map (spec_L E sig k) q)) (Finite (real (length q))))"

definition spec_pairs :: "numpy \<Rightarrow> int list \<Rightarrow> npfloat list \<Rightarrow> (real \<times> real) list" where
  "spec_pairs E scales sig =
     concat (map (\<lambda>k. case flog E (fadd E (spec_Lk E sig (nat k)) (eps E)) of
                          Finite y \<Rightarrow> [(abscissa E k, y)]
                        | _ \<Rightarrow> []) scales)"

text \<open>Finite values, and finite values that are not negative.\<close>

fun is_finite :: "npfloat \<Rightarrow> bool" where
  "is_finite (Finite x) = True"
| "is_finite _ = False"

fun finite_nonneg :: "npfloat \<Rightarrow> bool" where
  "finite_nonneg (Finite x) = (0 \<le> x)"
| "finite_nonneg _ = False"

section \<open>The scale selector\<close>

lemma strict_sorted_remdups_adj:
  "sorted xs \<Longrightarrow> sorted_wrt (<) (remdups_adj (xs::int list))"
proof (induction xs rule: remdups_adj.induct)
  case (3 x y xs)
  then show ?case by (cases "x = y") (auto simp: remdups_adj_set less_le)
qed simp_all

lemma strict_sorted_np_unique: "sorted_wrt (<) (np_unique xs)"
  by (simp add: np_unique_def strict_sorted_remdups_adj)

lemma set_np_unique: "set (np_unique xs) = set xs"
  by (simp add: np_unique_def remdups_adj_set)

lemma length_np_unique: "length (np_unique xs) \<le> length xs"
  unfolding np_unique_def using remdups_adj_length[of "sort xs"] by simp

lemma set_scale_set:
  "set (scale_set E M) = {k. 1 \<le> k \<and> k \<in> np_astype_int ` set (logspace E M)}"
  unfolding scale_set_def set_filter set_np_unique set_map by blast

lemma np_astype_int_le:
  assumes "p < real_of_int M + 1" and "0 \<le> M"
  shows "np_astype_int p \<le> M"
proof (cases "0 \<le> p")
  case True
  have "p < real_of_int (M + 1)" using assms(1) by simp
  then have "\<lfloor>p\<rfloor> < M + 1" by (simp only: floor_less_iff)
  with True show ?thesis by (simp add: np_astype_int_def)
next
  case False
  then have "p \<le> real_of_int 0" by simp
  then have c: "\<lceil>p\<rceil> \<le> 0" by (simp only: ceiling_le_iff)
  have "np_astype_int p = \<lceil>p\<rceil>" using False by (simp add: np_astype_int_def)
  with c assms(2) show ?thesis by linarith
qed

lemma scale_set_bounds:
  assumes "logspace_ok E M" and "0 \<le> M" and "k \<in> set (scale_set E M)"
  shows "1 \<le> k" and "k \<le> M"
proof -
  from assms(3) obtain p where k1: "1 \<le> k" and p: "p \<in> set (logspace E M)"
    and k: "k = np_astype_int p"
    unfolding set_scale_set by blast
  show "1 \<le> k" by (rule k1)
  from assms(1) p have "p < real_of_int M + 1" unfolding logspace_ok_def by blast
  then show "k \<le> M" unfolding k using assms(2) by (rule np_astype_int_le)
qed

lemma strict_sorted_scale_set: "sorted_wrt (<) (scale_set E M)"
  unfolding scale_set_def by (intro sorted_wrt_filter strict_sorted_np_unique)

lemma distinct_scale_set: "distinct (scale_set E M)"
  using strict_sorted_scale_set[of E M] by (simp add: strict_sorted_iff)

lemma length_scale_set_le:
  assumes "logspace_ok E M"
  shows "length (scale_set E M) \<le> 10"
proof -
  have "length (scale_set E M) \<le> length (np_unique (map np_astype_int (logspace E M)))"
    unfolding scale_set_def by (rule length_filter_le)
  also have "\<dots> \<le> length (map np_astype_int (logspace E M))"
    by (rule length_np_unique)
  also have "\<dots> = 10" using assms by (simp add: logspace_ok_def)
  finally show ?thesis .
qed

lemma scale_fits:
  assumes "logspace_ok E (min kmax (int (N div 2)))"
      and "k \<in> set (scale_set E (min kmax (int (N div 2))))"
      and "2 \<le> min kmax (int (N div 2))"
  shows "1 \<le> k" and "2 * nat k \<le> N"
proof -
  from assms(3) have m: "0 \<le> min kmax (int (N div 2))" by simp
  show "1 \<le> k" by (rule scale_set_bounds(1)[OF assms(1) m assms(2)])
  have "k \<le> min kmax (int (N div 2))" by (rule scale_set_bounds(2)[OF assms(1) m assms(2)])
  then have "k \<le> int (N div 2)" by simp
  then show "2 * nat k \<le> N" by linarith
qed

text \<open>The scale lists of the float64 tables: for \<open>max_k = 8\<close> the last value,
  \<open>7.999999999999999\<close>, is cast to 7.\<close>

lemma np_unique_5: "map np_astype_int (logspace_float64 5) = [1, 1, 1, 1, 2, 2, 2, 3, 4, 5]"
  by (simp add: logspace_float64_def np_astype_int_def)

lemma np_unique_8: "map np_astype_int (logspace_float64 8) = [1, 1, 1, 2, 2, 3, 4, 5, 6, 7]"
  by (simp add: logspace_float64_def np_astype_int_def)

lemma scale_set_float64_5:
  assumes "logspace E = logspace_float64"
  shows "scale_set E 5 = [1, 2, 3, 4, 5]"
  by (simp add: scale_set_def assms np_unique_5 np_unique_def)

lemma scale_set_float64_8:
  assumes "logspace E = logspace_float64"
  shows "scale_set E 8 = [1, 2, 3, 4, 5, 6, 7]"
  by (simp add: scale_set_def assms np_unique_8 np_unique_def)

lemma logspace_ok_float64_5:
  assumes "logspace E = logspace_float64"
  shows "logspace_ok E 5"
  by (simp add: logspace_ok_def assms logspace_float64_def)

lemma logspace_ok_float64_8:
  assumes "logspace E = logspace_float64"
  shows "logspace_ok E 8"
  by (simp add: logspace_ok_def assms logspace_float64_def)

lemma logspace_E_range [simp]: "logspace E_range = logspace_float64"
  by (simp add: E_range_def)

text \<open>
  Claim C6. When the effective maximum scale \<open>max_k = min(kmax, N // 2)\<close> is at least 2, the
  scale set is strictly increasing, hence free of duplicates, has at most 10 elements, and
  each element lies between 1 and \<open>max_k\<close>. The order, the absence of duplicates and the
  lower bound come from \<open>np.unique\<close> and the filter of line 119, whatever
  \<open>np.logspace\<close> returns; the number of elements needs its ten values, and the upper bound
  needs that their rounding error keeps them below \<open>max_k + 1\<close>.
\<close>

theorem scale_set_invariant:
  assumes "max_k = min kmax (int (N div 2))" and "2 \<le> max_k" and "logspace_ok E max_k"
  shows "sorted_wrt (<) (scale_set E max_k) \<and> distinct (scale_set E max_k)
         \<and> length (scale_set E max_k) \<le> 10
         \<and> (\<forall>k \<in> set (scale_set E max_k). 1 \<le> k \<and> k \<le> max_k)"
proof (intro conjI ballI)
  show "sorted_wrt (<) (scale_set E max_k)" by (rule strict_sorted_scale_set)
  show "distinct (scale_set E max_k)" by (rule distinct_scale_set)
  show "length (scale_set E max_k) \<le> 10" by (rule length_scale_set_le[OF assms(3)])
next
  fix k assume k: "k \<in> set (scale_set E max_k)"
  from assms(2) have m: "0 \<le> max_k" by simp
  show "1 \<le> k" by (rule scale_set_bounds(1)[OF assms(3) m k])
  show "k \<le> max_k" by (rule scale_set_bounds(2)[OF assms(3) m k])
qed

theorem scale_set_invariant_witness:
  "(8::int) = min 100 (int (16 div 2)) \<and> (2::int) \<le> 8 \<and> logspace_ok E_range 8
   \<and> scale_set E_range 8 = [1, 2, 3, 4, 5, 6, 7]
   \<and> sorted_wrt (<) (scale_set E_range 8) \<and> distinct (scale_set E_range 8)
   \<and> length (scale_set E_range 8) \<le> 10
   \<and> 7 \<in> set (scale_set E_range 8) \<and> (1::int) \<le> 7 \<and> (7::int) \<le> 8"
proof -
  have h1: "(8::int) = min 100 (int (16 div 2))" by simp
  have h2: "(2::int) \<le> 8" by simp
  have h3: "logspace_ok E_range 8" by (rule logspace_ok_float64_8) simp
  have h4: "scale_set E_range 8 = [1, 2, 3, 4, 5, 6, 7]" by (rule scale_set_float64_8) simp
  have h5: "7 \<in> set (scale_set E_range 8)" unfolding h4 by simp
  have h6: "(1::int) \<le> 7" "(7::int) \<le> 8" by simp_all
  from scale_set_invariant[OF h1 h2 h3] h1 h2 h3 h4 h5 h6 show ?thesis by blast
qed

section \<open>The curve-length estimator\<close>

lemma fadd_zero_left [simp]: "fadd E (Finite 0) b = b"
  by (cases b) simp_all

lemma fadd_zero_right [simp]: "fadd E a (Finite 0) = a"
  by (cases a) simp_all

lemma foldl_fadd_zero: "foldl (fadd E) (Finite 0) xs = np_sum E xs"
  by (cases xs) simp_all

lemma arange_index_bound:
  assumes "0 < (k::nat)"
  shows "j < (n - m + k - 1) div k \<longleftrightarrow> m + j * k < n"
proof -
  have "(n - m + k - 1) div k \<le> j \<longleftrightarrow> (n - m + k - 1) div k < Suc j" by auto
  also have "\<dots> \<longleftrightarrow> n - m + k - 1 < Suc j * k"
    using assms by (simp add: div_less_iff_less_mult)
  also have "\<dots> \<longleftrightarrow> n \<le> m + j * k" using assms by auto
  finally show ?thesis by auto
qed

lemma set_arange:
  assumes "0 < k"
  shows "set (arange m n k) = {i. m \<le> i \<and> i < n \<and> k dvd (i - m)}"
proof (intro set_eqI iffI)
  fix i assume "i \<in> set (arange m n k)"
  then obtain j where j: "j \<in> set [0..<(n - m + k - 1) div k]" and i: "i = m + j * k"
    unfolding arange_def set_map by blast
  from j have j: "j < (n - m + k - 1) div k" by (simp del: One_nat_def)
  from j have "m + j * k < n" using arange_index_bound[OF assms] by simp
  with i show "i \<in> {i. m \<le> i \<and> i < n \<and> k dvd (i - m)}" by simp
next
  fix i assume "i \<in> {i. m \<le> i \<and> i < n \<and> k dvd (i - m)}"
  then have mi: "m \<le> i" and "i < n" and "k dvd (i - m)" by simp_all
  then obtain j where "i - m = j * k" by (auto simp: dvd_def mult.commute)
  with mi have i: "i = m + j * k" by simp
  from \<open>i < n\<close> i have "m + j * k < n" by simp
  then have "j < (n - m + k - 1) div k" by (simp only: arange_index_bound[OF assms])
  then have "j \<in> set [0..<(n - m + k - 1) div k]" by (simp del: One_nat_def)
  then show "i \<in> set (arange m n k)" unfolding arange_def i set_map by (rule imageI)
qed

lemma strict_sorted_arange:
  assumes "0 < k"
  shows "sorted_wrt (<) (arange m n k)"
  unfolding arange_def sorted_wrt_iff_nth_less using assms by auto

lemma arange_eq_filter:
  assumes "0 < k"
  shows "arange m n k = filter (\<lambda>i. k dvd (i - m)) [m..<n]"
proof (rule sorted_distinct_set_unique)
  show "sorted (arange m n k)" "distinct (arange m n k)"
    using strict_sorted_arange[OF assms, of m n] by (simp_all add: strict_sorted_iff)
  show "sorted (filter (\<lambda>i. k dvd (i - m)) [m..<n])" by (simp add: sorted_wrt_filter)
  show "distinct (filter (\<lambda>i. k dvd (i - m)) [m..<n])" by simp
  show "set (arange m n k) = set (filter (\<lambda>i. k dvd (i - m)) [m..<n])"
    unfolding set_arange[OF assms] by auto
qed

lemma length_np_diff: "length (np_diff E s) = length s - 1"
  by (induction E s rule: np_diff.induct) simp_all

lemma nth_np_diff: "i < length s - 1 \<Longrightarrow> np_diff E s ! i = fsub E (s ! (i + 1)) (s ! i)"
proof (induction E s arbitrary: i rule: np_diff.induct)
  case (1 E a b xs)
  then show ?case by (cases i) simp_all
qed simp_all

lemma np_diff_by_index:
  "np_diff E s = map (\<lambda>i. fsub E (s ! (i + 1)) (s ! i)) [0..<length s - 1]"
  by (rule nth_equalityI) (simp_all add: length_np_diff nth_np_diff)

lemma abs_np_diff_by_index:
  "map fabs (np_diff E s) = map (\<lambda>i. fabs (fsub E (s ! (i + 1)) (s ! i))) [0..<length s - 1]"
  by (subst np_diff_by_index) (simp add: comp_def)

lemma seg_eq_spec_subsequence:
  assumes "0 < k"
  shows "map (\<lambda>i. sig ! i) (arange m (length sig) k) = spec_subsequence sig m k"
  by (simp add: spec_subsequence_def arange_eq_filter[OF assms])

lemma length_arange_eq_spec:
  assumes "0 < k"
  shows "length (arange m (length sig) k) = length (spec_subsequence sig m k)"
  using seg_eq_spec_subsequence[OF assms, of sig m] by (metis length_map)

lemma L_mk_eq_spec_L:
  assumes "0 < k"
  shows "L_mk E sig (length sig) k m = spec_L E sig k m"
  by (simp add: L_mk_def spec_L_def Let_def seg_eq_spec_subsequence[OF assms]
      abs_np_diff_by_index length_arange_eq_spec[OF assms])

lemma foldl_offset_step:
  "foldl (offset_step E sig n k) acc ms =
     (foldl (fadd E) (fst acc)
        (map (L_mk E sig n k) (filter (\<lambda>m. 2 \<le> length (arange m n k)) ms)),
      snd acc + length (filter (\<lambda>m. 2 \<le> length (arange m n k)) ms))"
  by (induction ms arbitrary: acc) (simp_all add: offset_step_def)

lemma offsets_loop_eq:
  "offsets_loop E sig n k =
     (np_sum E (map (L_mk E sig n k) (filter (\<lambda>m. 2 \<le> length (arange m n k)) [0..<k])),
      length (filter (\<lambda>m. 2 \<le> length (arange m n k)) [0..<k]))"
  by (simp add: offsets_loop_def foldl_offset_step foldl_fadd_zero)

lemma offsets_loop_spec:
  assumes "0 < k"
  shows "offsets_loop E sig (length sig) k =
           (np_sum E (map (spec_L E sig k) (spec_qualifying sig k)),
            length (spec_qualifying sig k))"
proof -
  have "L_mk E sig (length sig) k = spec_L E sig k"
    by (rule ext) (rule L_mk_eq_spec_L[OF assms])
  then show ?thesis
    by (simp add: offsets_loop_eq spec_qualifying_def length_arange_eq_spec[OF assms])
qed

lemma offset_qualifies:
  assumes "0 < k" and "m + k < n"
  shows "2 \<le> length (arange m n k)"
proof -
  have "1 < (n - m + k - 1) div k"
    using assms unfolding arange_index_bound[OF assms(1), of 1 n m] by simp
  then show ?thesis by (simp add: arange_def)
qed

lemma all_offsets_qualify:
  assumes "0 < k" and "2 * k \<le> n"
  shows "filter (\<lambda>m. 2 \<le> length (arange m n k)) [0..<k] = [0..<k]"
proof -
  have "\<forall>m\<in>set [0..<k]. 2 \<le> length (arange m n k)"
  proof
    fix m assume "m \<in> set [0..<k]"
    then have "m + k < n" using assms by simp
    then show "2 \<le> length (arange m n k)" by (rule offset_qualifies[OF assms(1)])
  qed
  then show ?thesis by (simp only: filter_True)
qed

lemma count_is_k:
  assumes "0 < k" and "2 * k \<le> n"
  shows "snd (offsets_loop E sig n k) = k"
  by (simp add: offsets_loop_eq all_offsets_qualify[OF assms])

lemma Lk_eq_spec_Lk:
  assumes "1 \<le> k" and "2 * nat k \<le> length sig"
  shows "Lk E sig (length sig) k = spec_Lk E sig (nat k)"
proof -
  from assms(1) have k: "0 < nat k" by simp
  have "length (spec_qualifying sig (nat k)) = nat k"
    using count_is_k[OF k assms(2), of E sig] by (simp add: offsets_loop_spec[OF k])
  with k have "spec_qualifying sig (nat k) \<noteq> []" by auto
  then show ?thesis
    by (simp add: Lk_def offsets_loop_spec[OF k] spec_Lk_def Let_def)
qed

lemma lk_entry_eq_spec:
  assumes "1 \<le> k" and "2 * nat k \<le> length sig"
  shows "lk_entry E sig (length sig) k = flog E (fadd E (spec_Lk E sig (nat k)) (eps E))"
proof -
  from assms(1) have k: "0 < nat k" by simp
  show ?thesis
    using count_is_k[OF k assms(2), of E sig] k
    by (simp add: lk_entry_def Lk_eq_spec_Lk[OF assms])
qed

lemma lk_entry_zero_branch:
  "snd (offsets_loop E sig n (nat k)) = 0 \<Longrightarrow> lk_entry E sig n k = Finite 0"
  by (simp add: lk_entry_def)

lemma length_center: "length (center E sig) = length sig"
  by (simp add: center_def)

lemma spec_qualifying_arange:
  assumes "0 < k"
  shows "spec_qualifying sig k = filter (\<lambda>m. 2 \<le> length (arange m (length sig) k)) [0..<k]"
  by (simp add: spec_qualifying_def length_arange_eq_spec[OF assms])

text \<open>
  Claim C1. For a signal of length \<open>N \<ge> 10\<close>, mean-centred, the loop over the offsets of
  any scale \<open>j \<ge> 1\<close> returns the sum of \<open>L(m,j)\<close> over the offsets whose subsequence has at
  least 2 samples, and their number; the other offsets add nothing. For a scale
  \<open>1 \<le> k \<le> N // 2\<close>, which every scale of the scale set is, all \<open>k\<close> offsets qualify, \<open>Lk\<close> is
  the specification's arithmetic mean and the stored ordinate is its logarithm; the
  specification's fallback for no qualifying offset does not occur there.
\<close>

theorem curve_length_is_mean:
  assumes "length sig = N" and "10 \<le> N" and "1 \<le> j" and "1 \<le> k" and "k \<le> int (N div 2)"
  shows "offsets_loop E (center E sig) N j
           = (np_sum E (map (spec_L E (center E sig) j) (spec_qualifying (center E sig) j)),
              length (spec_qualifying (center E sig) j))
         \<and> spec_qualifying (center E sig) (nat k) = [0..<nat k]
         \<and> Lk E (center E sig) N k = spec_Lk E (center E sig) (nat k)
         \<and> lk_entry E (center E sig) N k
             = flog E (fadd E (spec_Lk E (center E sig) (nat k)) (eps E))"
proof -
  have len: "length (center E sig) = N" using assms(1) by (simp add: length_center)
  from assms(3) have jpos: "0 < j" by simp
  from assms(4) have kpos: "0 < nat k" by simp
  from assms(5) have k2: "2 * nat k \<le> N" by linarith
  have k2': "2 * nat k \<le> length (center E sig)" using k2 len by simp
  have a: "offsets_loop E (center E sig) N j
           = (np_sum E (map (spec_L E (center E sig) j) (spec_qualifying (center E sig) j)),
              length (spec_qualifying (center E sig) j))"
    using offsets_loop_spec[OF jpos, of E "center E sig"] unfolding len .
  have "filter (\<lambda>m. 2 \<le> length (arange m N (nat k))) [0..<nat k] = [0..<nat k]"
    by (rule all_offsets_qualify[OF kpos k2])
  then have b: "spec_qualifying (center E sig) (nat k) = [0..<nat k]"
    unfolding spec_qualifying_def length_arange_eq_spec[OF kpos, symmetric] len .
  have c: "Lk E (center E sig) N k = spec_Lk E (center E sig) (nat k)"
    using Lk_eq_spec_Lk[OF assms(4) k2'] unfolding len .
  have d: "lk_entry E (center E sig) N k
             = flog E (fadd E (spec_Lk E (center E sig) (nat k)) (eps E))"
    using lk_entry_eq_spec[OF assms(4) k2'] unfolding len .
  from a b c d show ?thesis by blast
qed

theorem curve_length_is_mean_witness:
  "length (map Finite [1, 0, 2, 0, 3, 3, 3, 3, 1, 0]) = 10 \<and> (10::nat) \<le> 10
   \<and> (1::nat) \<le> 7 \<and> (1::int) \<le> 3 \<and> (3::int) \<le> int (10 div 2)
   \<and> spec_qualifying (center E_range (map Finite [1, 0, 2, 0, 3, 3, 3, 3, 1, 0])) 7 = [0, 1, 2]
   \<and> offsets_loop E_range (center E_range (map Finite [1, 0, 2, 0, 3, 3, 3, 3, 1, 0])) 10 7
           = (np_sum E_range
                (map (spec_L E_range (center E_range (map Finite [1, 0, 2, 0, 3, 3, 3, 3, 1, 0])) 7)
                   (spec_qualifying (center E_range (map Finite [1, 0, 2, 0, 3, 3, 3, 3, 1, 0])) 7)),
              length (spec_qualifying (center E_range (map Finite [1, 0, 2, 0, 3, 3, 3, 3, 1, 0])) 7))
   \<and> spec_qualifying (center E_range (map Finite [1, 0, 2, 0, 3, 3, 3, 3, 1, 0])) (nat 3)
        = [0..<nat 3]
   \<and> Lk E_range (center E_range (map Finite [1, 0, 2, 0, 3, 3, 3, 3, 1, 0])) 10 3
        = spec_Lk E_range (center E_range (map Finite [1, 0, 2, 0, 3, 3, 3, 3, 1, 0])) (nat 3)
   \<and> lk_entry E_range (center E_range (map Finite [1, 0, 2, 0, 3, 3, 3, 3, 1, 0])) 10 3
        = flog E_range (fadd E_range
            (spec_Lk E_range (center E_range (map Finite [1, 0, 2, 0, 3, 3, 3, 3, 1, 0])) (nat 3))
            (eps E_range))"
proof -
  let ?s = "map Finite [1, 0, 2, 0, 3, 3, 3, 3, 1, 0]"
  have h1: "length ?s = 10" by simp
  have h2: "(10::nat) \<le> 10" by simp
  have h3: "(1::nat) \<le> 7" by simp
  have h4: "(1::int) \<le> 3" by simp
  have h5: "(3::int) \<le> int (10 div 2)" by simp
  have len: "length (center E_range ?s) = 10" by (simp add: length_center)
  have up: "[0..<7] = [0, 1, 2, 3, 4, 5, 6::nat]" by (simp add: upt_rec)
  have h6: "spec_qualifying (center E_range ?s) 7 = [0, 1, 2]"
    unfolding spec_qualifying_arange[of 7, simplified] len up
    by (simp add: arange_def)
  from curve_length_is_mean[OF h1 h2 h3 h4 h5, of E_range] h1 h2 h3 h4 h5 h6
  show ?thesis by blast
qed

subsection \<open>Arithmetic without overflow keeps finite values finite\<close>

lemma is_finite_iff: "is_finite a \<longleftrightarrow> (\<exists>x. a = Finite x)"
  by (cases a) simp_all


lemma finite_nonneg_finite: "finite_nonneg a \<Longrightarrow> is_finite a"
  by (cases a) simp_all

lemma no_overflow_fl64:
  assumes "no_overflow E"
  shows "\<exists>y. fl64 E x = Finite y \<and> (0 \<le> x \<longrightarrow> 0 \<le> y) \<and> (0 < x \<longrightarrow> 0 < y)"
  using assms unfolding no_overflow_def by blast






















lemma no_overflow_E_range_false: "\<not> no_overflow E_range"
proof
  assume "no_overflow E_range"
  from no_overflow_fl64[OF this, of "2 ^ 1024"] show False
    by (simp add: E_range_def fl_range_def max_float64_def)
qed

lemma min_100_5: "min 100 (int (10 div 2)) = 5"
  by simp

subsection \<open>A finite signal that overflows\<close>

lemma fl64_E_range [simp]: "fl64 E_range = fl_range"
  by (simp add: E_range_def)

lemma center_spike:
  "center E_range (map Finite [5 * 2 ^ 1021, 0, 0, 0, 0, 0, 0, 0, 0, 0])
     = map Finite [9 * 2 ^ 1020, - (2 ^ 1020), - (2 ^ 1020), - (2 ^ 1020), - (2 ^ 1020),
                   - (2 ^ 1020), - (2 ^ 1020), - (2 ^ 1020), - (2 ^ 1020), - (2 ^ 1020)]"
  by (simp add: center_def np_mean_def fsub_def rnd_def fl_range_def max_float64_def)

lemma lk_spike:
  "map (lk_entry E_range
         (map Finite [9 * 2 ^ 1020, - (2 ^ 1020), - (2 ^ 1020), - (2 ^ 1020), - (2 ^ 1020),
                      - (2 ^ 1020), - (2 ^ 1020), - (2 ^ 1020), - (2 ^ 1020), - (2 ^ 1020)]) 10)
       [1, 2, 3, 4, 5]
     = [PosInf, PosInf, PosInf, PosInf, PosInf]"
  by (simp add: lk_entry_def Lk_def offsets_loop_def offset_step_def L_mk_def arange_def
        upt_rec fsub_def rnd_def fl_range_def max_float64_def eps_def)




section \<open>The regression\<close>

subsection \<open>The least-squares line\<close>

lemma sq_error_shift:
  fixes ps :: "(real \<times> real) list"
  shows "sq_error ps a' b' =
     sq_error ps a b
     + (\<Sum>p\<leftarrow>ps. ((a' - a) * fst p + (b' - b)) ^ 2)
     - 2 * (a' - a) * (\<Sum>p\<leftarrow>ps. fst p * (snd p - (a * fst p + b)))
     - 2 * (b' - b) * (\<Sum>p\<leftarrow>ps. snd p - (a * fst p + b))"
  unfolding sq_error_def
  by (induction ps) (simp_all add: algebra_simps power2_eq_square)

lemma residual_sum:
  fixes ps :: "(real \<times> real) list"
  shows "(\<Sum>p\<leftarrow>ps. snd p - (a * fst p + b)) =
     (\<Sum>p\<leftarrow>ps. snd p) - a * (\<Sum>p\<leftarrow>ps. fst p) - real (length ps) * b"
  by (induction ps) (simp_all add: algebra_simps)

lemma residual_moment:
  fixes ps :: "(real \<times> real) list"
  shows "(\<Sum>p\<leftarrow>ps. fst p * (snd p - (a * fst p + b))) =
     (\<Sum>p\<leftarrow>ps. fst p * snd p) - a * (\<Sum>p\<leftarrow>ps. fst p * fst p) - b * (\<Sum>p\<leftarrow>ps. fst p)"
  by (induction ps) (simp_all add: algebra_simps)

lemma quadratic_form:
  fixes ps :: "(real \<times> real) list"
  shows "(\<Sum>p\<leftarrow>ps. (u * fst p + v) ^ 2) =
     u * u * (\<Sum>p\<leftarrow>ps. fst p * fst p) + 2 * u * v * (\<Sum>p\<leftarrow>ps. fst p)
     + real (length ps) * (v * v)"
  by (induction ps) (simp_all add: algebra_simps power2_eq_square)

lemma quadratic_form_zero:
  fixes ps :: "(real \<times> real) list"
  assumes "(\<Sum>p\<leftarrow>ps. (u * fst p + v) ^ 2) = 0" and "p \<in> set ps"
  shows "u * fst p + v = 0"
proof -
  have "\<forall>x\<in>set (map (\<lambda>p. (u * fst p + v) ^ 2) ps). x = 0"
    using assms(1) by (subst (asm) sum_list_nonneg_eq_0_iff) auto
  with assms(2) show ?thesis by auto
qed

lemma quadratic_form_pos:
  fixes ps :: "(real \<times> real) list"
  assumes "p \<in> set ps" and "q \<in> set ps" and "fst p \<noteq> fst q" and "u \<noteq> 0"
  shows "0 < (\<Sum>p\<leftarrow>ps. (u * fst p + v) ^ 2)"
proof -
  have nn: "0 \<le> (\<Sum>p\<leftarrow>ps. (u * fst p + v) ^ 2)" by (rule sum_list_nonneg) auto
  have "(\<Sum>p\<leftarrow>ps. (u * fst p + v) ^ 2) \<noteq> 0"
  proof
    assume z: "(\<Sum>p\<leftarrow>ps. (u * fst p + v) ^ 2) = 0"
    have "u * fst p + v = 0" "u * fst q + v = 0"
      using quadratic_form_zero[OF z] assms(1,2) by simp_all
    then have "u * fst p = u * fst q" by linarith
    then have "u * (fst p - fst q) = 0" by (simp add: right_diff_distrib)
    with assms(3,4) show False by simp
  qed
  with nn show ?thesis by simp
qed

lemma denominator_pos:
  fixes ps :: "(real \<times> real) list"
  assumes "p \<in> set ps" and "q \<in> set ps" and "fst p \<noteq> fst q"
  shows "0 < real (length ps) * (\<Sum>p\<leftarrow>ps. fst p * fst p)
             - (\<Sum>p\<leftarrow>ps. fst p) * (\<Sum>p\<leftarrow>ps. fst p)"
proof -
  define n where "n = real (length ps)"
  define sx where "sx = (\<Sum>p\<leftarrow>ps. fst p)"
  define sxx where "sxx = (\<Sum>p\<leftarrow>ps. fst p * fst p)"
  have npos: "0 < n" using assms(1) unfolding n_def by (cases ps) auto
  have "0 < (\<Sum>p\<leftarrow>ps. (n * fst p + (- sx)) ^ 2)"
    using quadratic_form_pos[OF assms, of n "- sx"] npos by simp
  also have "\<dots> = n * n * sxx + 2 * n * (- sx) * sx + n * ((- sx) * (- sx))"
    unfolding quadratic_form n_def sx_def sxx_def by simp
  also have "\<dots> = n * (n * sxx - sx * sx)" by (simp add: algebra_simps)
  finally have "0 < n * (n * sxx - sx * sx)" .
  with npos have "0 < n * sxx - sx * sx" by (simp add: zero_less_mult_iff)
  then show ?thesis unfolding n_def sx_def sxx_def .
qed

lemma polyfit1_pairs:
  fixes ps :: "(real \<times> real) list"
  shows "polyfit1 (map fst ps) (map snd ps) =
     (let n = real (length ps);
          sx = (\<Sum>p\<leftarrow>ps. fst p);
          sy = (\<Sum>p\<leftarrow>ps. snd p);
          sxx = (\<Sum>p\<leftarrow>ps. fst p * fst p);
          sxy = (\<Sum>p\<leftarrow>ps. fst p * snd p);
          slope = (n * sxy - sx * sy) / (n * sxx - sx * sx)
      in (slope, (sy - slope * sx) / n))"
  by (simp add: polyfit1_def zip_map_fst_snd)

lemma polyfit1_normal_equations:
  fixes ps :: "(real \<times> real) list"
  assumes "p \<in> set ps" and "q \<in> set ps" and "fst p \<noteq> fst q"
      and "polyfit1 (map fst ps) (map snd ps) = (a, b)"
  shows "(\<Sum>p\<leftarrow>ps. snd p - (a * fst p + b)) = 0"
    and "(\<Sum>p\<leftarrow>ps. fst p * (snd p - (a * fst p + b))) = 0"
proof -
  define n where "n = real (length ps)"
  define sx where "sx = (\<Sum>p\<leftarrow>ps. fst p)"
  define sy where "sy = (\<Sum>p\<leftarrow>ps. snd p)"
  define sxx where "sxx = (\<Sum>p\<leftarrow>ps. fst p * fst p)"
  define sxy where "sxy = (\<Sum>p\<leftarrow>ps. fst p * snd p)"
  have npos: "0 < n" using assms(1) unfolding n_def by (cases ps) auto
  have den: "0 < n * sxx - sx * sx"
    using denominator_pos[OF assms(1-3)] unfolding n_def sx_def sxx_def .
  have a: "a = (n * sxy - sx * sy) / (n * sxx - sx * sx)"
    and b: "b = (sy - a * sx) / n"
    using assms(4) unfolding polyfit1_pairs Let_def n_def sx_def sy_def sxx_def sxy_def
    by auto
  have e1: "sy - a * sx - n * b = 0" using npos unfolding b by simp
  have "a * (n * sxx - sx * sx) = n * sxy - sx * sy" using den unfolding a by simp
  then have "n * (sxy - a * sxx) = sx * (sy - a * sx)" by (simp add: algebra_simps)
  also have "\<dots> = sx * (n * b)" using e1 by simp
  finally have "n * (sxy - a * sxx - b * sx) = 0" by (simp add: algebra_simps)
  with npos have e2: "sxy - a * sxx - b * sx = 0" by simp
  show "(\<Sum>p\<leftarrow>ps. snd p - (a * fst p + b)) = 0"
    unfolding residual_sum using e1 unfolding n_def sx_def sy_def .
  show "(\<Sum>p\<leftarrow>ps. fst p * (snd p - (a * fst p + b))) = 0"
    unfolding residual_moment using e2 unfolding sx_def sxx_def sxy_def .
qed

lemma polyfit1_least_squares:
  fixes ps :: "(real \<times> real) list"
  assumes "p \<in> set ps" and "q \<in> set ps" and "fst p \<noteq> fst q"
      and "polyfit1 (map fst ps) (map snd ps) = (a, b)"
  shows "is_ols_line ps a b"
    and "is_ols_line ps a' b' \<Longrightarrow> a' = a \<and> b' = b"
proof -
  note ne = polyfit1_normal_equations[OF assms]
  have shift: "sq_error ps u v = sq_error ps a b + (\<Sum>p\<leftarrow>ps. ((u - a) * fst p + (v - b)) ^ 2)"
    for u v
    using sq_error_shift[of ps u v a b] unfolding ne by simp
  have nn: "0 \<le> (\<Sum>p\<leftarrow>ps. ((u - a) * fst p + (v - b)) ^ 2)" for u v
    by (rule sum_list_nonneg) auto
  show "is_ols_line ps a b"
    unfolding is_ols_line_def
  proof (intro allI)
    fix u v show "sq_error ps a b \<le> sq_error ps u v"
      using shift[of u v] nn[of u v] by linarith
  qed
  assume "is_ols_line ps a' b'"
  then have "sq_error ps a' b' \<le> sq_error ps a b" unfolding is_ols_line_def by blast
  with shift[of a' b'] nn[of a' b']
  have z: "(\<Sum>p\<leftarrow>ps. ((a' - a) * fst p + (b' - b)) ^ 2) = 0" by linarith
  have zp: "(a' - a) * fst p + (b' - b) = 0" and zq: "(a' - a) * fst q + (b' - b) = 0"
    using quadratic_form_zero[OF z] assms(1,2) by simp_all
  then have "(a' - a) * fst p = (a' - a) * fst q" by linarith
  then have "(a' - a) * (fst p - fst q) = 0" by (simp add: right_diff_distrib)
  with assms(3) have "a' = a" by simp
  with zp show "a' = a \<and> b' = b" by simp
qed

lemma two_abscissae:
  fixes ps :: "(real \<times> real) list"
  assumes "distinct (map fst ps)" and "2 \<le> length ps"
  shows "\<exists>p\<in>set ps. \<exists>q\<in>set ps. fst p \<noteq> fst q"
proof -
  from assms(2) have l: "0 < length ps" "1 < length ps" by linarith+
  have "map fst ps ! 0 \<noteq> map fst ps ! 1"
    using assms(1)[unfolded distinct_conv_nth, rule_format, of 0 1] l by simp
  then have "fst (ps ! 0) \<noteq> fst (ps ! 1)" using l by (simp only: nth_map simp_thms)
  moreover have "ps ! 0 \<in> set ps" "ps ! 1 \<in> set ps"
    by (rule nth_mem[OF l(1)], rule nth_mem[OF l(2)])
  ultimately show ?thesis by blast
qed


lemma ols_unique:
  fixes ps :: "(real \<times> real) list"
  assumes "p \<in> set ps" and "q \<in> set ps" and "fst p \<noteq> fst q"
      and "is_ols_line ps h c" and "is_ols_line ps a b"
  shows "a = h"
proof -
  obtain a0 b0 where ab: "polyfit1 (map fst ps) (map snd ps) = (a0, b0)" by force
  have "h = a0 \<and> c = b0" by (rule polyfit1_least_squares(2)[OF assms(1-3) ab assms(4)])
  moreover have "a = a0 \<and> b = b0" by (rule polyfit1_least_squares(2)[OF assms(1-3) ab assms(5)])
  ultimately show ?thesis by simp
qed

lemma polyfit_exact_is_ols:
  assumes "polyfit_slope E = polyfit_exact"
  shows "polyfit_is_ols E"
  unfolding polyfit_is_ols_def
proof (intro allI impI)
  fix ps :: "(real \<times> real) list"
  assume "\<exists>p\<in>set ps. \<exists>q\<in>set ps. fst p \<noteq> fst q"
  then obtain p q where pq: "p \<in> set ps" "q \<in> set ps" "fst p \<noteq> fst q" by blast
  obtain a b where ab: "polyfit1 (map fst ps) (map snd ps) = (a, b)" by force
  have "polyfit_slope E (map fst ps) (map snd ps) = Finite a"
    by (simp add: assms polyfit_exact_def ab)
  moreover have "is_ols_line ps a b" by (rule polyfit1_least_squares(1)[OF pq ab])
  ultimately show "\<exists>h c. polyfit_slope E (map fst ps) (map snd ps) = Finite h \<and> is_ols_line ps h c"
    by blast
qed

subsection \<open>The pairs passed to \<open>np.polyfit\<close>\<close>

lemma mask_select_fst:
  fixes f :: "int \<Rightarrow> npfloat" and g :: "int \<Rightarrow> real"
  shows "map g (mask_select (map (\<lambda>v. \<not> np_isinf v \<and> \<not> np_isnan v) (map f scales)) scales)
         = map fst (concat (map (\<lambda>k. case f k of Finite y \<Rightarrow> [(g k, y)] | _ \<Rightarrow> []) scales))"
proof (induction scales)
  case Nil
  show ?case by (simp add: mask_select_def)
next
  case (Cons k ks)
  then show ?case by (cases "f k") (simp_all add: mask_select_def)
qed

lemma mask_select_snd:
  fixes f :: "int \<Rightarrow> npfloat" and g :: "int \<Rightarrow> real"
  shows "map float_of (mask_select (map (\<lambda>v. \<not> np_isinf v \<and> \<not> np_isnan v) (map f scales))
                          (map f scales))
         = map snd (concat (map (\<lambda>k. case f k of Finite y \<Rightarrow> [(g k, y)] | _ \<Rightarrow> []) scales))"
proof (induction scales)
  case Nil
  show ?case by (simp add: mask_select_def)
next
  case (Cons k ks)
  then show ?case by (cases "f k") (simp_all add: mask_select_def)
qed

lemma mask_count_pairs:
  fixes f :: "int \<Rightarrow> npfloat" and g :: "int \<Rightarrow> real"
  shows "length (filter id (map (\<lambda>v. \<not> np_isinf v \<and> \<not> np_isnan v) (map f scales)))
         = length (concat (map (\<lambda>k. case f k of Finite y \<Rightarrow> [(g k, y)] | _ \<Rightarrow> []) scales))"
proof (induction scales)
  case (Cons k ks)
  then show ?case by (cases "f k") simp_all
qed simp

lemma hfd_signal_code_pairs:
  "hfd_signal E scales n sig0 =
     (let ps = concat (map (\<lambda>k. case lk_entry E (center E sig0) n k of
                                   Finite y \<Rightarrow> [(abscissa E k, y)]
                                 | _ \<Rightarrow> []) scales)
      in if length ps < 2 then Finite 0 else polyfit_slope E (map fst ps) (map snd ps))"
  unfolding hfd_signal_def Let_def
  by (simp only: mask_count_pairs[where g = "abscissa E"]
        mask_select_fst[where g = "abscissa E"] mask_select_snd[where g = "abscissa E"])

lemma spec_pairs_code:
  assumes "\<forall>k\<in>set scales. 1 \<le> k \<and> 2 * nat k \<le> length sig"
  shows "spec_pairs E scales sig =
     concat (map (\<lambda>k. case lk_entry E sig (length sig) k of
                         Finite y \<Rightarrow> [(abscissa E k, y)] | _ \<Rightarrow> []) scales)"
proof -
  have eq: "map (\<lambda>k. case flog E (fadd E (spec_Lk E sig (nat k)) (eps E)) of
                    Finite y \<Rightarrow> [(abscissa E k, y)] | _ \<Rightarrow> []) scales
        = map (\<lambda>k. case lk_entry E sig (length sig) k of
                    Finite y \<Rightarrow> [(abscissa E k, y)] | _ \<Rightarrow> []) scales"
  proof (rule map_cong[OF refl])
    fix k assume "k \<in> set scales"
    with assms have k: "1 \<le> k" "2 * nat k \<le> length sig" by simp_all
    show "(case flog E (fadd E (spec_Lk E sig (nat k)) (eps E)) of
             Finite y \<Rightarrow> [(abscissa E k, y)] | _ \<Rightarrow> [])
        = (case lk_entry E sig (length sig) k of
             Finite y \<Rightarrow> [(abscissa E k, y)] | _ \<Rightarrow> [])"
      unfolding lk_entry_eq_spec[OF k] by (rule refl)
  qed
  show ?thesis unfolding spec_pairs_def eq by (rule refl)
qed

lemma hfd_signal_spec_pairs:
  assumes "\<forall>k\<in>set scales. 1 \<le> k \<and> 2 * nat k \<le> length sig0"
  shows "hfd_signal E scales (length sig0) sig0 =
     (let ps = spec_pairs E scales (center E sig0)
      in if length ps < 2 then Finite 0 else polyfit_slope E (map fst ps) (map snd ps))"
proof -
  have "\<forall>k\<in>set scales. 1 \<le> k \<and> 2 * nat k \<le> length (center E sig0)"
    using assms by (simp add: length_center)
  from spec_pairs_code[OF this, of E]
  show ?thesis unfolding hfd_signal_code_pairs by (simp only: length_center)
qed

lemma fst_spec_pairs:
  "map fst (spec_pairs E scales sig) =
     map (abscissa E)
       (filter (\<lambda>k. is_finite (flog E (fadd E (spec_Lk E sig (nat k)) (eps E)))) scales)"
proof (induction scales)
  case Nil
  show ?case by (simp add: spec_pairs_def)
next
  case (Cons k ks)
  then show ?case
    by (cases "flog E (fadd E (spec_Lk E sig (nat k)) (eps E))") (simp_all add: spec_pairs_def)
qed

lemma abscissae_distinct:
  assumes "distinct scales" and "inj_on (abscissa E) (set scales)"
  shows "distinct (map fst (spec_pairs E scales sig))"
proof -
  have "inj_on (abscissa E)
          (set (filter (\<lambda>k. is_finite (flog E (fadd E (spec_Lk E sig (nat k)) (eps E)))) scales))"
    by (rule inj_on_subset[OF assms(2)]) auto
  with assms(1) show ?thesis unfolding fst_spec_pairs by (simp add: distinct_map)
qed

lemma hfd_vals_nth:
  assumes "10 \<le> N" and "2 \<le> min kmax (int (N div 2))" and "i < length X"
  shows "hfd_vals E kmax N X ! i = hfd_signal E (scale_set E (min kmax (int (N div 2)))) N (X ! i)"
proof -
  have a: "\<not> N < 10" "\<not> min kmax (int (N div 2)) < 2" using assms(1,2) by linarith+
  show ?thesis unfolding hfd_vals_def Let_def using a assms(3) by (simp only: if_False nth_map)
qed

subsection \<open>Evaluation in arithmetic that overflows beyond the largest float64\<close>

lemma max_float64_ge: "10 ^ 12 \<le> max_float64"
  by (simp add: max_float64_def)

lemma ln_inverse_bound:
  assumes "1 \<le> x" and "x \<le> max_float64"
  shows "\<bar>ln (1 / x)\<bar> \<le> max_float64"
proof -
  have "ln (1 / x) = - ln x" using assms(1) by (simp add: ln_div)
  moreover have "0 \<le> ln x" using assms(1) by simp
  moreover have "ln x \<le> x - 1" using assms(1) by (intro ln_le_minus_one) simp
  ultimately show ?thesis using assms(2) by simp
qed

lemma rnd_E_range_ln:
  assumes "1 \<le> x" and "x \<le> max_float64"
  shows "rnd E_range (ln (1 / x)) = Finite (ln (1 / x))"
  using ln_inverse_bound[OF assms] by (simp add: rnd_def fl_range_def)

lemma abscissa_E_range:
  assumes "1 \<le> k" and "real_of_int k \<le> max_float64"
  shows "abscissa E_range k = ln (1 / real_of_int k)"
proof -
  have k: "(1::real) \<le> real_of_int k" using assms(1) by simp
  then have "\<bar>1 / real_of_int k\<bar> \<le> 1" by simp
  also have "(1::real) \<le> max_float64" by (simp add: max_float64_def)
  finally have "fdiv E_range (Finite 1) (Finite (real_of_int k)) = Finite (1 / real_of_int k)"
    using k by (simp add: rnd_def fl_range_def)
  moreover have "0 < 1 / real_of_int k" using k by simp
  ultimately have "flog E_range (fdiv E_range (Finite 1) (Finite (real_of_int k)))
                     = rnd E_range (ln (1 / real_of_int k))" by simp
  then show ?thesis unfolding abscissa_def rnd_E_range_ln[OF k assms(2)] by simp
qed

lemma eps_E_range: "eps E_range = Finite (1 / 10 ^ 12)"
  by (simp add: eps_def fl_range_def max_float64_def)

lemma flog_eps_E_range: "flog E_range (Finite (1 / 10 ^ 12)) = Finite (ln (1 / 10 ^ 12))"
proof -
  have "flog E_range (Finite (1 / 10 ^ 12)) = rnd E_range (ln (1 / 10 ^ 12))" by simp
  also have "\<dots> = Finite (ln (1 / 10 ^ 12))"
    by (rule rnd_E_range_ln[OF _ max_float64_ge]) simp
  finally show ?thesis .
qed

lemma lk_entry_from_Lk:
  assumes "1 \<le> k" and "2 * nat k \<le> n"
  shows "lk_entry E sig n k = flog E (fadd E (Lk E sig n k) (eps E))"
proof -
  from assms(1) have k: "0 < nat k" by simp
  show ?thesis using count_is_k[OF k assms(2), of E sig] k by (simp add: lk_entry_def)
qed

lemma inj_on_abscissa_E_range: "inj_on (abscissa E_range) (set [1, 2, 3, 4, 5])"
proof (rule inj_onI)
  fix a b :: int assume a: "a \<in> set [1, 2, 3, 4, 5]" and b: "b \<in> set [1, 2, 3, 4, 5]"
    and e: "abscissa E_range a = abscissa E_range b"
  have m: "(5::real) \<le> max_float64" by (simp add: max_float64_def)
  from a have a1: "1 \<le> a" "real_of_int a \<le> max_float64" using m by auto
  from b have b1: "1 \<le> b" "real_of_int b \<le> max_float64" using m by auto
  from e have "ln (1 / real_of_int a) = ln (1 / real_of_int b)"
    unfolding abscissa_E_range[OF a1] abscissa_E_range[OF b1] .
  moreover have "0 < real_of_int a" "0 < real_of_int b" using a1(1) b1(1) by simp_all
  ultimately show "a = b" by (simp add: ln_div)
qed

text \<open>The signal \<open>a, -a, a, -a, ...\<close> with \<open>a = 5 * 2^1020\<close>: at the scales 1, 3 and 5 the
  curve length overflows, at the scales 2 and 4 it is 0.\<close>

lemma center_alternating:
  "center E_range (map Finite [5 * 2 ^ 1020, - (5 * 2 ^ 1020), 5 * 2 ^ 1020, - (5 * 2 ^ 1020),
       5 * 2 ^ 1020, - (5 * 2 ^ 1020), 5 * 2 ^ 1020, - (5 * 2 ^ 1020), 5 * 2 ^ 1020,
       - (5 * 2 ^ 1020)])
     = map Finite [5 * 2 ^ 1020, - (5 * 2 ^ 1020), 5 * 2 ^ 1020, - (5 * 2 ^ 1020),
       5 * 2 ^ 1020, - (5 * 2 ^ 1020), 5 * 2 ^ 1020, - (5 * 2 ^ 1020), 5 * 2 ^ 1020,
       - (5 * 2 ^ 1020)]"
  by (simp add: center_def np_mean_def fsub_def rnd_def fl_range_def max_float64_def)

lemma Lk_alternating:
  "map (Lk E_range
         (map Finite [5 * 2 ^ 1020, - (5 * 2 ^ 1020), 5 * 2 ^ 1020, - (5 * 2 ^ 1020),
            5 * 2 ^ 1020, - (5 * 2 ^ 1020), 5 * 2 ^ 1020, - (5 * 2 ^ 1020), 5 * 2 ^ 1020,
            - (5 * 2 ^ 1020)]) 10)
       [1, 2, 3, 4, 5]
     = [PosInf, Finite 0, PosInf, Finite 0, PosInf]"
  by (simp add: Lk_def offsets_loop_def offset_step_def L_mk_def arange_def
        upt_rec fsub_def rnd_def fl_range_def max_float64_def)

lemma lk_alternating:
  "map (lk_entry E_range
         (map Finite [5 * 2 ^ 1020, - (5 * 2 ^ 1020), 5 * 2 ^ 1020, - (5 * 2 ^ 1020),
            5 * 2 ^ 1020, - (5 * 2 ^ 1020), 5 * 2 ^ 1020, - (5 * 2 ^ 1020), 5 * 2 ^ 1020,
            - (5 * 2 ^ 1020)]) 10)
       [1, 2, 3, 4, 5]
     = [PosInf, Finite (ln (1 / 10 ^ 12)), PosInf, Finite (ln (1 / 10 ^ 12)), PosInf]"
proof -
  have a: "flog E_range (fadd E_range PosInf (eps E_range)) = PosInf"
    by (simp add: eps_E_range)
  have b: "flog E_range (fadd E_range (Finite 0) (eps E_range)) = Finite (ln (1 / 10 ^ 12))"
    unfolding fadd_zero_left eps_E_range by (rule flog_eps_E_range)
  have e: "lk_entry E_range sig 10 1 = flog E_range (fadd E_range (Lk E_range sig 10 1) (eps E_range))"
    "lk_entry E_range sig 10 2 = flog E_range (fadd E_range (Lk E_range sig 10 2) (eps E_range))"
    "lk_entry E_range sig 10 3 = flog E_range (fadd E_range (Lk E_range sig 10 3) (eps E_range))"
    "lk_entry E_range sig 10 4 = flog E_range (fadd E_range (Lk E_range sig 10 4) (eps E_range))"
    "lk_entry E_range sig 10 5 = flog E_range (fadd E_range (Lk E_range sig 10 5) (eps E_range))"
    for sig
    by (rule lk_entry_from_Lk; simp)+
  show ?thesis
    using Lk_alternating unfolding list.map e by (simp only: list.inject a b simp_thms)
qed

lemma spec_pairs_two_finite:
  assumes "length sig = 10"
      and "map (lk_entry E sig 10) [1, 2, 3, 4, 5] = [PosInf, Finite y2, PosInf, Finite y4, PosInf]"
  shows "spec_pairs E [1, 2, 3, 4, 5] sig = [(abscissa E 2, y2), (abscissa E 4, y4)]"
proof -
  have "\<forall>k\<in>set [1, 2, 3, 4, 5 :: int]. 1 \<le> k \<and> 2 * nat k \<le> length sig"
    using assms(1) by simp
  from spec_pairs_code[OF this, of E] assms(2) show ?thesis
    unfolding assms(1) by simp
qed

lemma spec_pairs_none_finite:
  assumes "length sig = 10"
      and "map (lk_entry E sig 10) [1, 2, 3, 4, 5] = [PosInf, PosInf, PosInf, PosInf, PosInf]"
  shows "spec_pairs E [1, 2, 3, 4, 5] sig = []"
proof -
  have "\<forall>k\<in>set [1, 2, 3, 4, 5 :: int]. 1 \<le> k \<and> 2 * nat k \<le> length sig"
    using assms(1) by simp
  from spec_pairs_code[OF this, of E] assms(2) show ?thesis
    unfolding assms(1) by simp
qed

text \<open>
  Claim C2. For a signal that reaches the regression step, the value is computed from the
  pairs \<open>(log(1/k), log(Lk + 1e-12))\<close> over the scales of the scale set, without the pairs
  whose ordinate is infinite or not a number. With fewer than 2 pairs left the value is
  0.0; otherwise it is the slope \<open>np.polyfit\<close> returns for the remaining pairs. When
  \<open>np.polyfit\<close> returns a least-squares slope and different scales have different
  abscissae, the value is the slope of the least-squares line through the remaining pairs:
  some intercept makes it a minimiser of the squared error, and every minimiser has this
  slope.
\<close>

theorem hfd_is_ols_slope:
  assumes "i < length X" and "length (X ! i) = N" and "10 \<le> N"
      and "2 \<le> min kmax (int (N div 2))"
      and "logspace_ok E (min kmax (int (N div 2)))"
      and "ps = spec_pairs E (scale_set E (min kmax (int (N div 2)))) (center E (X ! i))"
  shows "(length ps < 2 \<longrightarrow> hfd_vals E kmax N X ! i = Finite 0)
       \<and> (2 \<le> length ps \<longrightarrow>
            hfd_vals E kmax N X ! i = polyfit_slope E (map fst ps) (map snd ps))
       \<and> (2 \<le> length ps \<and> polyfit_is_ols E
            \<and> inj_on (abscissa E) (set (scale_set E (min kmax (int (N div 2))))) \<longrightarrow>
            (\<exists>slope. hfd_vals E kmax N X ! i = Finite slope
               \<and> (\<exists>intercept. is_ols_line ps slope intercept)
               \<and> (\<forall>a b. is_ols_line ps a b \<longrightarrow> a = slope)))"
proof -
  let ?S = "scale_set E (min kmax (int (N div 2)))"
  have fits: "\<forall>k\<in>set ?S. 1 \<le> k \<and> 2 * nat k \<le> length (X ! i)"
    using scale_fits[OF assms(5) _ assms(4)] assms(2) by blast
  have h: "hfd_vals E kmax N X ! i =
             (if length ps < 2 then Finite 0 else polyfit_slope E (map fst ps) (map snd ps))"
    unfolding hfd_vals_nth[OF assms(3,4,1)] assms(6)
    using hfd_signal_spec_pairs[OF fits, of E] unfolding assms(2) by (simp add: Let_def)
  show ?thesis
  proof (intro conjI impI)
    assume "length ps < 2" then show "hfd_vals E kmax N X ! i = Finite 0" using h by simp
  next
    assume "2 \<le> length ps"
    then show "hfd_vals E kmax N X ! i = polyfit_slope E (map fst ps) (map snd ps)"
      using h by simp
  next
    assume a: "2 \<le> length ps \<and> polyfit_is_ols E \<and> inj_on (abscissa E) (set ?S)"
    then have two: "2 \<le> length ps" and ols: "polyfit_is_ols E"
      and inj: "inj_on (abscissa E) (set ?S)" by simp_all
    have "distinct (map fst ps)"
      unfolding assms(6) by (rule abscissae_distinct[OF distinct_scale_set inj])
    from two_abscissae[OF this two] obtain p q
      where pq: "p \<in> set ps" "q \<in> set ps" "fst p \<noteq> fst q" by blast
    then have "\<exists>p\<in>set ps. \<exists>q\<in>set ps. fst p \<noteq> fst q" by blast
    with ols obtain s c where s: "polyfit_slope E (map fst ps) (map snd ps) = Finite s"
      and c: "is_ols_line ps s c" unfolding polyfit_is_ols_def by blast
    from two h s have out: "hfd_vals E kmax N X ! i = Finite s" by simp
    have "\<forall>a b. is_ols_line ps a b \<longrightarrow> a = s"
      using ols_unique[OF pq c] by blast
    with out c show "\<exists>slope. hfd_vals E kmax N X ! i = Finite slope
               \<and> (\<exists>intercept. is_ols_line ps slope intercept)
               \<and> (\<forall>a b. is_ols_line ps a b \<longrightarrow> a = slope)" by blast
  qed
qed

theorem hfd_is_ols_slope_witness:
  "(0::nat) < length [map Finite [5 * 2 ^ 1020, - (5 * 2 ^ 1020), 5 * 2 ^ 1020, - (5 * 2 ^ 1020), 5 * 2 ^ 1020, - (5 * 2 ^ 1020), 5 * 2 ^ 1020, - (5 * 2 ^ 1020), 5 * 2 ^ 1020, - (5 * 2 ^ 1020)]]
   \<and> length ([map Finite [5 * 2 ^ 1020, - (5 * 2 ^ 1020), 5 * 2 ^ 1020, - (5 * 2 ^ 1020), 5 * 2 ^ 1020, - (5 * 2 ^ 1020), 5 * 2 ^ 1020, - (5 * 2 ^ 1020), 5 * 2 ^ 1020, - (5 * 2 ^ 1020)]] ! 0) = 10 \<and> (10::nat) \<le> 10
   \<and> 2 \<le> min 100 (int (10 div 2))
   \<and> logspace_ok E_range (min 100 (int (10 div 2)))
   \<and> scale_set E_range (min 100 (int (10 div 2))) = [1, 2, 3, 4, 5]
   \<and> spec_pairs E_range (scale_set E_range (min 100 (int (10 div 2))))
        (center E_range ([map Finite [5 * 2 ^ 1020, - (5 * 2 ^ 1020), 5 * 2 ^ 1020, - (5 * 2 ^ 1020), 5 * 2 ^ 1020, - (5 * 2 ^ 1020), 5 * 2 ^ 1020, - (5 * 2 ^ 1020), 5 * 2 ^ 1020, - (5 * 2 ^ 1020)]] ! 0))
      = [(ln (1 / 2), ln (1 / 10 ^ 12)), (ln (1 / 4), ln (1 / 10 ^ 12))]
   \<and> polyfit_is_ols E_range
   \<and> inj_on (abscissa E_range) (set (scale_set E_range (min 100 (int (10 div 2)))))
   \<and> hfd_vals E_range 100 10 [map Finite [5 * 2 ^ 1020, - (5 * 2 ^ 1020), 5 * 2 ^ 1020, - (5 * 2 ^ 1020), 5 * 2 ^ 1020, - (5 * 2 ^ 1020), 5 * 2 ^ 1020, - (5 * 2 ^ 1020), 5 * 2 ^ 1020, - (5 * 2 ^ 1020)]] ! 0
      = polyfit_slope E_range [ln (1 / 2), ln (1 / 4)] [ln (1 / 10 ^ 12), ln (1 / 10 ^ 12)]
   \<and> (\<exists>slope intercept. hfd_vals E_range 100 10 [map Finite [5 * 2 ^ 1020, - (5 * 2 ^ 1020), 5 * 2 ^ 1020, - (5 * 2 ^ 1020), 5 * 2 ^ 1020, - (5 * 2 ^ 1020), 5 * 2 ^ 1020, - (5 * 2 ^ 1020), 5 * 2 ^ 1020, - (5 * 2 ^ 1020)]] ! 0 = Finite slope
         \<and> is_ols_line [(ln (1 / 2), ln (1 / 10 ^ 12)), (ln (1 / 4), ln (1 / 10 ^ 12))]
              slope intercept)
   \<and> (0::nat) < length [map Finite [5 * 2 ^ 1021, 0, 0, 0, 0, 0, 0, 0, 0, 0]]
   \<and> length ([map Finite [5 * 2 ^ 1021, 0, 0, 0, 0, 0, 0, 0, 0, 0]] ! 0) = 10
   \<and> spec_pairs E_range (scale_set E_range (min 100 (int (10 div 2))))
        (center E_range ([map Finite [5 * 2 ^ 1021, 0, 0, 0, 0, 0, 0, 0, 0, 0]] ! 0)) = []
   \<and> hfd_vals E_range 100 10 [map Finite [5 * 2 ^ 1021, 0, 0, 0, 0, 0, 0, 0, 0, 0]] ! 0 = Finite 0"
proof -
  let ?alt = "map Finite [5 * 2 ^ 1020, - (5 * 2 ^ 1020), 5 * 2 ^ 1020, - (5 * 2 ^ 1020), 5 * 2 ^ 1020, - (5 * 2 ^ 1020), 5 * 2 ^ 1020, - (5 * 2 ^ 1020), 5 * 2 ^ 1020, - (5 * 2 ^ 1020)]"
  let ?spike = "map Finite [5 * 2 ^ 1021, 0, 0, 0, 0, 0, 0, 0, 0, 0]"
  let ?S = "scale_set E_range (min 100 (int (10 div 2)))"
  let ?ps = "[(ln (1 / 2), ln (1 / 10 ^ 12)), (ln (1 / 4), ln (1 / 10 ^ 12)) :: real \<times> real]"
  have h1: "(0::nat) < length [?alt]" by simp
  have h2: "length ([?alt] ! 0) = 10" by simp
  have h3: "(10::nat) \<le> 10" by simp
  have h4: "2 \<le> min 100 (int (10 div 2))" by simp
  have h5: "logspace_ok E_range (min 100 (int (10 div 2)))"
    unfolding min_100_5 by (rule logspace_ok_float64_5[OF logspace_E_range])
  have sc: "?S = [1, 2, 3, 4, 5]"
    unfolding min_100_5 by (rule scale_set_float64_5[OF logspace_E_range])
  have g1: "(0::nat) < length [?spike]" by simp
  have g2: "length ([?spike] ! 0) = 10" by simp
  have m: "(5::real) \<le> max_float64" by (simp add: max_float64_def)
  have ab: "abscissa E_range 2 = ln (1 / 2)" "abscissa E_range 4 = ln (1 / 4)"
    using abscissa_E_range[of 2] abscissa_E_range[of 4] m by simp_all
  have la: "length ?alt = 10" by simp
  have ls: "length (center E_range ?spike) = 10" unfolding length_center by simp
  have "spec_pairs E_range [1, 2, 3, 4, 5] ?alt
          = [(abscissa E_range 2, ln (1 / 10 ^ 12)), (abscissa E_range 4, ln (1 / 10 ^ 12))]"
    by (rule spec_pairs_two_finite[OF la lk_alternating])
  then have pa: "spec_pairs E_range ?S (center E_range ([?alt] ! 0)) = ?ps"
    unfolding sc nth_Cons_0 center_alternating ab .
  have "map (lk_entry E_range (center E_range ?spike) 10) [1, 2, 3, 4, 5]
          = [PosInf, PosInf, PosInf, PosInf, PosInf]"
    unfolding center_spike by (rule lk_spike)
  from spec_pairs_none_finite[OF ls this]
  have pb: "spec_pairs E_range ?S (center E_range ([?spike] ! 0)) = []"
    unfolding sc nth_Cons_0 .
  have ols: "polyfit_is_ols E_range"
    by (rule polyfit_exact_is_ols) (simp add: E_range_def)
  have inj: "inj_on (abscissa E_range) (set ?S)"
    unfolding sc by (rule inj_on_abscissa_E_range)
  note ta = hfd_is_ols_slope[OF h1 h2 h3 h4 h5 refl]
  note tb = hfd_is_ols_slope[OF g1 g2 h3 h4 h5 refl]
  have two: "2 \<le> length (spec_pairs E_range ?S (center E_range ([?alt] ! 0)))"
    unfolding pa by simp
  have none: "length (spec_pairs E_range ?S (center E_range ([?spike] ! 0))) < 2"
    unfolding pb by simp
  from ta two have "hfd_vals E_range 100 10 [?alt] ! 0
      = polyfit_slope E_range
          (map fst (spec_pairs E_range ?S (center E_range ([?alt] ! 0))))
          (map snd (spec_pairs E_range ?S (center E_range ([?alt] ! 0))))" by blast
  then have c1: "hfd_vals E_range 100 10 [?alt] ! 0
      = polyfit_slope E_range [ln (1 / 2), ln (1 / 4)] [ln (1 / 10 ^ 12), ln (1 / 10 ^ 12)]"
    unfolding pa by simp
  from ta two ols inj have "\<exists>slope. hfd_vals E_range 100 10 [?alt] ! 0 = Finite slope
        \<and> (\<exists>intercept. is_ols_line
             (spec_pairs E_range ?S (center E_range ([?alt] ! 0))) slope intercept)
        \<and> (\<forall>a b. is_ols_line (spec_pairs E_range ?S (center E_range ([?alt] ! 0))) a b
              \<longrightarrow> a = slope)" by blast
  then have c2: "\<exists>slope intercept. hfd_vals E_range 100 10 [?alt] ! 0 = Finite slope
         \<and> is_ols_line ?ps slope intercept"
    unfolding pa by blast
  from tb none have c3: "hfd_vals E_range 100 10 [?spike] ! 0 = Finite 0" by blast
  from h1 h2 h3 h4 h5 sc pa ols inj c1 c2 g1 g2 pb c3 show ?thesis by blast
qed

section \<open>The transform: shapes, degenerate lengths, errors\<close>

lemma map_of_dict_update: "map_of (dict_update key v d) key = Some v"
  by (induction d) auto

lemma length_hfd_vals: "length (hfd_vals E kmax n X) = length X"
  by (simp add: hfd_vals_def Let_def)

lemma length_X_flat_rows: "length (X_flat_rows r t xs) = r"
  by (simp add: X_flat_rows_def)

lemma result_X_store:
  "result_X (Inr (store_result flat T B El vals d)) =
     Some (if flat then [T, B * El] else [T, B, El], vals)"
  by (simp add: store_result_def map_of_dict_update)

lemma higuchi_fractal_ok:
  assumes "map_of d ''X'' = Some (NdArray shp xs)"
      and "as_int kmax = Some k0"
      and "normalize_shape shp = Inr (T, B, El, N)"
  shows "result_X (higuchi_fractal E (PyDict d) kmax flating kwargs) =
           Some (if effective_flating flating kwargs then [T, B * El] else [T, B, El],
                 hfd_vals E (if k0 < 2 then 2 else k0) N (X_flat_rows (T * B * El) N xs))"
  using assms by (simp add: higuchi_fractal_def Let_def result_X_store)

lemma normalize_shape_cases:
  "normalize_shape shp = Inr (T, B, El, N) \<longleftrightarrow> (shp = [T, El, N] \<and> B = 1) \<or> shp = [T, B, El, N]"
  by (auto simp: normalize_shape_def split: list.splits)

lemma normalize_shape_err:
  "length shp \<noteq> 3 \<Longrightarrow> length shp \<noteq> 4 \<Longrightarrow>
   normalize_shape shp = Inl (ValueError_unsupported_shape shp)"
  by (auto simp: normalize_shape_def split: list.splits)

lemma normalize_shape_ok:
  assumes "length shp = 3 \<or> length shp = 4"
  shows "\<exists>T B El N. normalize_shape shp = Inr (T, B, El, N)"
  using assms
  by (auto simp: normalize_shape_def length_Suc_conv numeral_3_eq_3 numeral_eq_Suc
      split: list.splits)

text \<open>
  Claim C4. A signal with fewer than 10 samples, and likewise one whose effective maximum
  scale \<open>min(kmax, N // 2)\<close> (with \<open>kmax\<close> the clamped parameter of line 114) is below 2,
  gets the value 0: the whole output is the array of zeros that lines 112 and 116 create,
  and no curve length or regression enters it.
\<close>

theorem short_signal_output_zero:
  assumes "map_of d ''X'' = Some (NdArray shp xs)"
      and "as_int kmax = Some k0"
      and "normalize_shape shp = Inr (T, B, El, N)"
      and "N < 10 \<or> min (if k0 < 2 then 2 else k0) (int (N div 2)) < 2"
  shows "result_X (higuchi_fractal E (PyDict d) kmax flating kwargs) =
           Some (if effective_flating flating kwargs then [T, B * El] else [T, B, El],
                 replicate (T * B * El) (Finite 0))"
  using assms(4) unfolding higuchi_fractal_ok[OF assms(1-3)]
  by (auto simp: hfd_vals_def Let_def length_X_flat_rows)

theorem short_signal_output_zero_witness:
  "map_of [(''X'', NdArray [1, 2, 3] (map Finite [1, 2, 3, 4, 5, 6]))] ''X''
     = Some (NdArray [1, 2, 3] (map Finite [1, 2, 3, 4, 5, 6]))
   \<and> as_int (PyInt 100) = Some 100
   \<and> normalize_shape [1, 2, 3] = Inr (1, 1, 2, 3)
   \<and> ((3::nat) < 10 \<or> min (if (100::int) < 2 then 2 else 100) (int (3 div 2)) < 2)
   \<and> result_X (higuchi_fractal E_range
        (PyDict [(''X'', NdArray [1, 2, 3] (map Finite [1, 2, 3, 4, 5, 6]))])
        (PyInt 100) False Map.empty) =
           Some (if effective_flating False Map.empty then [1, 1 * 2] else [1, 1, 2],
                 replicate (1 * 1 * 2) (Finite 0))"
  using short_signal_output_zero[of "[(''X'', NdArray [1, 2, 3] (map Finite [1, 2, 3, 4, 5, 6]))]"
      "[1, 2, 3]" "map Finite [1, 2, 3, 4, 5, 6]" "PyInt 100" 100 1 1 2 3 E_range False Map.empty]
  by (simp add: normalize_shape_def)

text \<open>
  Claim C3. For a valid call on a tensor of shape \<open>(T, B, E, N)\<close>, or of shape \<open>(T, E, N)\<close>
  read with \<open>B = 1\<close>, the returned array holds exactly \<open>T * B * E\<close> values, one per
  (trial, band, electrode) triple, under the shape \<open>(T, B, E)\<close> in grid layout and
  \<open>(T, B * E)\<close> in flattened layout.
\<close>

theorem output_shape:
  assumes "map_of d ''X'' = Some (NdArray shp xs)"
      and "as_int kmax = Some k0"
      and "shp = [T, El, N] \<and> B = 1 \<or> shp = [T, B, El, N]"
  shows "\<exists>vals. length vals = T * B * El \<and>
           result_X (higuchi_fractal E (PyDict d) kmax flating kwargs) =
             Some (if effective_flating flating kwargs then [T, B * El] else [T, B, El], vals) \<and>
           wf_ndarray [T, B * El] vals \<and> wf_ndarray [T, B, El] vals"
proof -
  from assms(3) have n: "normalize_shape shp = Inr (T, B, El, N)"
    by (simp add: normalize_shape_cases)
  show ?thesis
    unfolding higuchi_fractal_ok[OF assms(1,2) n]
    by (simp add: length_hfd_vals length_X_flat_rows wf_ndarray_def)
qed

theorem output_shape_witness:
  "map_of [(''X'', NdArray [1, 2, 3] (map Finite [1, 2, 3, 4, 5, 6]))] ''X''
     = Some (NdArray [1, 2, 3] (map Finite [1, 2, 3, 4, 5, 6]))
   \<and> as_int (PyInt 100) = Some 100
   \<and> ([1, 2, 3] = [1, 2, 3::nat] \<and> (1::nat) = 1 \<or> [1, 2, 3] = [1, 1, 2, 3::nat])
   \<and> (\<exists>vals. length vals = 1 * 1 * 2 \<and>
           result_X (higuchi_fractal E_range
              (PyDict [(''X'', NdArray [1, 2, 3] (map Finite [1, 2, 3, 4, 5, 6]))])
              (PyInt 100) True Map.empty) =
             Some (if effective_flating True Map.empty then [1, 1 * 2] else [1, 1, 2], vals) \<and>
           wf_ndarray [1, 1 * 2] vals \<and> wf_ndarray [1, 1, 2] vals)"
  using output_shape[of "[(''X'', NdArray [1, 2, 3] (map Finite [1, 2, 3, 4, 5, 6]))]"
      "[1, 2, 3]" "map Finite [1, 2, 3, 4, 5, 6]" "PyInt 100" 100 1 2 3 1 E_range True Map.empty]
  by simp

text \<open>
  Claim C9. With the legacy switch supplied, the effective flag is the disjunction of the two
  switches. Turning flattening on by the primary switch or by the legacy one gives the same
  result, and the flattened array holds at position \<open>(t, b * E + e)\<close> the value that the
  grid array holds at \<open>(t, b, e)\<close>.
\<close>

theorem flattening_switches:
  "effective_flating flating (Map.empty(''flattening'' \<mapsto> legacy)) = (flating \<or> legacy)
   \<and> effective_flating flating Map.empty = flating
   \<and> higuchi_fractal E eegdata kmax True Map.empty
       = higuchi_fractal E eegdata kmax False (Map.empty(''flattening'' \<mapsto> True))
   \<and> (map_of d ''X'' = Some (NdArray shp xs) \<and> as_int kmax = Some k0 \<and>
        normalize_shape shp = Inr (T, B, El, N) \<longrightarrow>
        (\<exists>vals. result_X (higuchi_fractal E (PyDict d) kmax True Map.empty)
                   = Some ([T, B * El], vals)
              \<and> result_X (higuchi_fractal E (PyDict d) kmax False
                            (Map.empty(''flattening'' \<mapsto> True)))
                   = Some ([T, B * El], vals)
              \<and> result_X (higuchi_fractal E (PyDict d) kmax False Map.empty)
                   = Some ([T, B, El], vals)
              \<and> (\<forall>t b e. vals ! nd_index [T, B * El] [t, b * El + e]
                           = vals ! nd_index [T, B, El] [t, b, e])))"
proof (intro conjI impI)
  show "effective_flating flating (Map.empty(''flattening'' \<mapsto> legacy)) = (flating \<or> legacy)"
    by (simp add: effective_flating_def)
  show "effective_flating flating Map.empty = flating"
    by (simp add: effective_flating_def)
  show "higuchi_fractal E eegdata kmax True Map.empty
       = higuchi_fractal E eegdata kmax False (Map.empty(''flattening'' \<mapsto> True))"
  proof -
    have e: "effective_flating False (Map.empty(''flattening'' \<mapsto> True))
               = effective_flating True Map.empty"
      by (simp add: effective_flating_def)
    show ?thesis unfolding higuchi_fractal_def e by (rule refl)
  qed
next
  assume a: "map_of d ''X'' = Some (NdArray shp xs) \<and> as_int kmax = Some k0 \<and>
        normalize_shape shp = Inr (T, B, El, N)"
  have ix: "nd_index [T, B * El] [t, b * El + e] = nd_index [T, B, El] [t, b, e]" for t b e
    by (simp add: algebra_simps)
  from a show "\<exists>vals. result_X (higuchi_fractal E (PyDict d) kmax True Map.empty)
                   = Some ([T, B * El], vals)
              \<and> result_X (higuchi_fractal E (PyDict d) kmax False
                            (Map.empty(''flattening'' \<mapsto> True)))
                   = Some ([T, B * El], vals)
              \<and> result_X (higuchi_fractal E (PyDict d) kmax False Map.empty)
                   = Some ([T, B, El], vals)
              \<and> (\<forall>t b e. vals ! nd_index [T, B * El] [t, b * El + e]
                           = vals ! nd_index [T, B, El] [t, b, e])"
    by (simp add: higuchi_fractal_ok effective_flating_def ix del: nd_index.simps)
qed

theorem flattening_switches_witness:
  "map_of [(''X'', NdArray [1, 2, 3] (map Finite [1, 2, 3, 4, 5, 6]))] ''X''
       = Some (NdArray [1, 2, 3] (map Finite [1, 2, 3, 4, 5, 6]))
   \<and> as_int (PyInt 100) = Some 100
   \<and> normalize_shape [1, 2, 3] = Inr (1, 1, 2, 3)
   \<and> (\<exists>vals. result_X (higuchi_fractal E_range
                   (PyDict [(''X'', NdArray [1, 2, 3] (map Finite [1, 2, 3, 4, 5, 6]))])
                   (PyInt 100) True Map.empty) = Some ([1, 1 * 2], vals)
              \<and> result_X (higuchi_fractal E_range
                   (PyDict [(''X'', NdArray [1, 2, 3] (map Finite [1, 2, 3, 4, 5, 6]))])
                   (PyInt 100) False (Map.empty(''flattening'' \<mapsto> True))) = Some ([1, 1 * 2], vals)
              \<and> result_X (higuchi_fractal E_range
                   (PyDict [(''X'', NdArray [1, 2, 3] (map Finite [1, 2, 3, 4, 5, 6]))])
                   (PyInt 100) False Map.empty) = Some ([1, 1, 2], vals)
              \<and> (\<forall>t b e. vals ! nd_index [1, 1 * 2] [t, b * 2 + e]
                           = vals ! nd_index [1, 1, 2] [t, b, e]))"
  using flattening_switches[of False True E_range "PyNone" "PyInt 100"
      "[(''X'', NdArray [1, 2, 3] (map Finite [1, 2, 3, 4, 5, 6]))]" "[1, 2, 3]"
      "map Finite [1, 2, 3, 4, 5, 6]" 100 1 1 2 3]
  by (simp add: normalize_shape_def del: nd_index.simps)

text \<open>
  Claim C5 fails for an array that is not numeric: line 97 only asks whether \<open>X\<close> is an
  \<open>np.ndarray\<close>. An array of strings with 3 samples per signal is accepted and zeros are
  returned; with 10 samples, numpy's \<open>TypeError\<close> is raised, not the error of line 98.
\<close>

theorem string_array_counterexample:
  "higuchi_fractal E_range
      (PyDict [(''X'', NdArrayStr [1, 1, 3] [''a'', ''b'', ''c''])]) (PyInt 100) False Map.empty
     = Inr (PyDict [(''X'', NdArray [1, 1, 1] [Finite 0])])
   \<and> higuchi_fractal E_range
      (PyDict [(''X'', NdArrayStr [1, 1, 10]
                 [''a'', ''b'', ''c'', ''d'', ''e'', ''f'', ''g'', ''h'', ''i'', ''j''])])
      (PyInt 100) False Map.empty
     = Inl TypeError_numpy_mean"
  by (simp add: higuchi_fractal_def normalize_shape_def hfd_vals_str_def store_result_def
      effective_flating_def)

text \<open>
  Claim C5, amended. The transform raises its five errors exactly on these calls, in the
  order of its checks: a payload that is not a dict (line 83), a dict without the key \<open>X\<close>
  (line 85), a \<open>kmax\<close> that is not a Python integer (line 87), an \<open>X\<close> that is not an
  \<open>np.ndarray\<close> (line 98), an array whose rank is neither 3 nor 4 (line 103). A call on a
  float array of rank 3 or 4 returns, and an integer \<open>kmax\<close> below 2 behaves as 2. An array
  of strings of rank 3 or 4 passes the check of line 97: the call returns when the signals
  have fewer than 10 samples or there is no signal, and otherwise numpy's \<open>TypeError\<close>
  surfaces from line 122.
\<close>

theorem error_taxonomy:
  "((\<forall>d. eegdata \<noteq> PyDict d) \<longrightarrow>
       higuchi_fractal E eegdata kmax flating kwargs = Inl ValueError_not_a_dict)
   \<and> (map_of d ''X'' = None \<longrightarrow>
       higuchi_fractal E (PyDict d) kmax flating kwargs = Inl KeyError_X)
   \<and> (map_of d ''X'' = Some X \<and> as_int kmax = None \<longrightarrow>
       higuchi_fractal E (PyDict d) kmax flating kwargs = Inl ValueError_kmax_not_int)
   \<and> (map_of d ''X'' = Some X \<and> as_int kmax = Some k0 \<and>
        (\<forall>shp xs. X \<noteq> NdArray shp xs) \<and> (\<forall>shp ss. X \<noteq> NdArrayStr shp ss) \<longrightarrow>
       higuchi_fractal E (PyDict d) kmax flating kwargs = Inl ValueError_not_ndarray)
   \<and> (map_of d ''X'' = Some X \<and> as_int kmax = Some k0 \<and>
        (X = NdArray shp xs \<or> X = NdArrayStr shp ss) \<and> length shp \<noteq> 3 \<and> length shp \<noteq> 4 \<longrightarrow>
       higuchi_fractal E (PyDict d) kmax flating kwargs = Inl (ValueError_unsupported_shape shp))
   \<and> (map_of d ''X'' = Some (NdArray shp xs) \<and> as_int kmax = Some k0 \<and>
        (length shp = 3 \<or> length shp = 4) \<longrightarrow>
       (\<exists>out. higuchi_fractal E (PyDict d) kmax flating kwargs = Inr out))
   \<and> (map_of d ''X'' = Some (NdArrayStr shp ss) \<and> as_int kmax = Some k0 \<and>
        normalize_shape shp = Inr (T, B, El, N) \<and> (N < 10 \<or> T * B * El = 0) \<longrightarrow>
       (\<exists>out. higuchi_fractal E (PyDict d) kmax flating kwargs = Inr out))
   \<and> (map_of d ''X'' = Some (NdArrayStr shp ss) \<and> as_int kmax = Some k0 \<and>
        normalize_shape shp = Inr (T, B, El, N) \<and> 10 \<le> N \<and> 0 < T * B * El \<longrightarrow>
       higuchi_fractal E (PyDict d) kmax flating kwargs = Inl TypeError_numpy_mean)
   \<and> (as_int kmax = Some k0 \<and> k0 < 2 \<longrightarrow>
       higuchi_fractal E eegdata kmax flating kwargs
         = higuchi_fractal E eegdata (PyInt 2) flating kwargs)
   \<and> as_int (NpInt64 i) = None \<and> as_int (PyFloat r) = None"
proof (intro conjI impI)
  assume "\<forall>d. eegdata \<noteq> PyDict d"
  then show "higuchi_fractal E eegdata kmax flating kwargs = Inl ValueError_not_a_dict"
    by (cases eegdata) (simp_all add: higuchi_fractal_def)
next
  assume "map_of d ''X'' = None"
  then show "higuchi_fractal E (PyDict d) kmax flating kwargs = Inl KeyError_X"
    by (simp add: higuchi_fractal_def)
next
  assume "map_of d ''X'' = Some X \<and> as_int kmax = None"
  then show "higuchi_fractal E (PyDict d) kmax flating kwargs = Inl ValueError_kmax_not_int"
    by (simp add: higuchi_fractal_def)
next
  assume "map_of d ''X'' = Some X \<and> as_int kmax = Some k0 \<and>
        (\<forall>shp xs. X \<noteq> NdArray shp xs) \<and> (\<forall>shp ss. X \<noteq> NdArrayStr shp ss)"
  then show "higuchi_fractal E (PyDict d) kmax flating kwargs = Inl ValueError_not_ndarray"
    by (cases X) (simp_all add: higuchi_fractal_def Let_def)
next
  assume "map_of d ''X'' = Some X \<and> as_int kmax = Some k0 \<and>
        (X = NdArray shp xs \<or> X = NdArrayStr shp ss) \<and> length shp \<noteq> 3 \<and> length shp \<noteq> 4"
  then show "higuchi_fractal E (PyDict d) kmax flating kwargs
               = Inl (ValueError_unsupported_shape shp)"
    by (auto simp: higuchi_fractal_def Let_def normalize_shape_err)
next
  assume a: "map_of d ''X'' = Some (NdArray shp xs) \<and> as_int kmax = Some k0 \<and>
        (length shp = 3 \<or> length shp = 4)"
  then obtain T B El N where "normalize_shape shp = Inr (T, B, El, N)"
    using normalize_shape_ok by blast
  with a show "\<exists>out. higuchi_fractal E (PyDict d) kmax flating kwargs = Inr out"
    by (simp add: higuchi_fractal_def Let_def)
next
  assume "map_of d ''X'' = Some (NdArrayStr shp ss) \<and> as_int kmax = Some k0 \<and>
        normalize_shape shp = Inr (T, B, El, N) \<and> (N < 10 \<or> T * B * El = 0)"
  then show "\<exists>out. higuchi_fractal E (PyDict d) kmax flating kwargs = Inr out"
    by (auto simp: higuchi_fractal_def Let_def hfd_vals_str_def)
next
  assume a: "map_of d ''X'' = Some (NdArrayStr shp ss) \<and> as_int kmax = Some k0 \<and>
        normalize_shape shp = Inr (T, B, El, N) \<and> 10 \<le> N \<and> 0 < T * B * El"
  then have "\<not> N < 10" and "\<not> min (if k0 < 2 then 2 else k0) (int (N div 2)) < 2"
    by auto
  with a show "higuchi_fractal E (PyDict d) kmax flating kwargs = Inl TypeError_numpy_mean"
    by (simp add: higuchi_fractal_def Let_def hfd_vals_str_def)
next
  assume "as_int kmax = Some k0 \<and> k0 < 2"
  then show "higuchi_fractal E eegdata kmax flating kwargs
         = higuchi_fractal E eegdata (PyInt 2) flating kwargs"
    by (simp add: higuchi_fractal_def Let_def split: pyval.splits option.splits)
qed simp_all

theorem error_taxonomy_witness:
  "higuchi_fractal E_range (PyList []) (PyInt 5) False Map.empty = Inl ValueError_not_a_dict
   \<and> higuchi_fractal E_range (PyDict [(''y'', PyNone)]) (PyInt 5) False Map.empty = Inl KeyError_X
   \<and> higuchi_fractal E_range (PyDict [(''X'', NdArray [1, 1, 1] [Finite 0])]) (NpInt64 5) False
        Map.empty = Inl ValueError_kmax_not_int
   \<and> higuchi_fractal E_range (PyDict [(''X'', PyList [])]) (PyInt 5) False Map.empty
        = Inl ValueError_not_ndarray
   \<and> higuchi_fractal E_range (PyDict [(''X'', NdArray [2, 3] (map Finite [1, 2, 3, 4, 5, 6]))])
        (PyInt 5) False Map.empty = Inl (ValueError_unsupported_shape [2, 3])
   \<and> (\<exists>out. higuchi_fractal E_range (PyDict [(''X'', NdArray [1, 1, 1] [Finite 0])]) (PyInt 5)
          False Map.empty = Inr out)
   \<and> (\<exists>out. higuchi_fractal E_range (PyDict [(''X'', NdArrayStr [1, 1, 1] [''a''])]) (PyInt 5)
          False Map.empty = Inr out)
   \<and> higuchi_fractal E_range (PyDict [(''X'', NdArray [1, 1, 1] [Finite 0])]) (PyInt 1) False
        Map.empty
       = higuchi_fractal E_range (PyDict [(''X'', NdArray [1, 1, 1] [Finite 0])]) (PyInt 2) False
           Map.empty"
  using
    error_taxonomy[of "PyList []" E_range "PyInt 5" False Map.empty "[(''y'', PyNone)]" "PyNone"
      5 "[]" "[]" "[]" 0 0 0 0 0 0]
    error_taxonomy[of "PyNone" E_range "NpInt64 5" False Map.empty
      "[(''X'', NdArray [1, 1, 1] [Finite 0])]" "NdArray [1, 1, 1] [Finite 0]" 5 "[1, 1, 1]"
      "[Finite 0]" "[]" 0 0 0 0 0 0]
    error_taxonomy[of "PyNone" E_range "PyInt 5" False Map.empty
      "[(''X'', PyList [])]" "PyList []" 5 "[]" "[]" "[]" 0 0 0 0 0 0]
    error_taxonomy[of "PyNone" E_range "PyInt 5" False Map.empty
      "[(''X'', NdArray [2, 3] (map Finite [1, 2, 3, 4, 5, 6]))]"
      "NdArray [2, 3] (map Finite [1, 2, 3, 4, 5, 6])" 5
      "[2, 3]" "map Finite [1, 2, 3, 4, 5, 6]" "[]" 0 0 0 0 0 0]
    error_taxonomy[of "PyNone" E_range "PyInt 5" False Map.empty
      "[(''X'', NdArray [1, 1, 1] [Finite 0])]" "NdArray [1, 1, 1] [Finite 0]" 5 "[1, 1, 1]"
      "[Finite 0]" "[]" 0 0 0 0 0 0]
    error_taxonomy[of "PyNone" E_range "PyInt 5" False Map.empty
      "[(''X'', NdArrayStr [1, 1, 1] [''a''])]" "NdArrayStr [1, 1, 1] [''a'']" 5 "[1, 1, 1]"
      "[]" "[''a'']" 1 1 1 1 0 0]
    error_taxonomy[of "PyDict [(''X'', NdArray [1, 1, 1] [Finite 0])]" E_range "PyInt 1" False
      Map.empty "[]" "PyNone" 1 "[]" "[]" "[]" 0 0 0 0 0 0]
  by (simp add: normalize_shape_def)

end
